theory Spec2Isabelle
  imports Main "HOL-Library.Word"
begin

section \<open>Strings\<close>

text \<open>
  Go strings are byte sequences; they are modelled as \<^typ>\<open>string\<close> (a list of 8-bit
  characters). A rune (Go's \<^verbatim>\<open>int32\<close>) is an integer. The functions of
  Go's \<^verbatim>\<open>strings\<close>, \<^verbatim>\<open>unicode\<close> and \<^verbatim>\<open>unicode/utf8\<close> packages that the program
  calls are written out below. The case tables of Unicode are not: they are the
  parameter \<open>U\<close> (a record \<open>Unicode\<close>) of \<open>ToLower\<close> and \<open>EqualFold\<close> and of everything
  that calls them, so that what is proved holds for every table.
\<close>

definition HasPrefix :: "string \<Rightarrow> string \<Rightarrow> bool" where
  "HasPrefix s p = (take (length p) s = p)"

definition HasSuffix :: "string \<Rightarrow> string \<Rightarrow> bool" where
  "HasSuffix s p = (length p \<le> length s \<and> drop (length s - length p) s = p)"

definition TrimPrefix :: "string \<Rightarrow> string \<Rightarrow> string" where
  "TrimPrefix s p = (if HasPrefix s p then drop (length p) s else s)"

definition TrimSuffix :: "string \<Rightarrow> string \<Rightarrow> string" where
  "TrimSuffix s p = (if HasSuffix s p then take (length s - length p) s else s)"

fun Contains :: "string \<Rightarrow> string \<Rightarrow> bool" where
  "Contains [] sub = (sub = [])"
| "Contains (c # cs) sub = (HasPrefix (c # cs) sub \<or> Contains cs sub)"

text \<open>\<^verbatim>\<open>strings.ContainsAny(s, chars)\<close> for ASCII \<^verbatim>\<open>chars\<close>: a byte below 128 is never part
  of a longer UTF-8 sequence, so the search is a search for bytes.\<close>

definition ContainsAny :: "string \<Rightarrow> string \<Rightarrow> bool" where
  "ContainsAny s chars = list_ex (\<lambda>c. c \<in> set chars) s"

subsection \<open>UTF-8\<close>

definition RuneError :: int where
  "RuneError = 0xFFFD"

text \<open>
  \<^verbatim>\<open>utf8.DecodeRuneInString\<close>: the first rune of \<open>s\<close> and its width in bytes. Bytes that
  do not start a well-formed sequence decode as \<open>RuneError\<close> with width 1; the empty
  string gives width 0. The first byte fixes the length of the sequence and the range
  of the second byte (the tables \<^verbatim>\<open>first\<close> and \<^verbatim>\<open>acceptRanges\<close>); the other bytes are
  continuation bytes, \<^verbatim>\<open>0x80\<close> to \<^verbatim>\<open>0xBF\<close>.
\<close>

definition DecodeRuneInString :: "string \<Rightarrow> int \<times> nat" where
  "DecodeRuneInString s =
     (if length s < 1 then (RuneError, 0)
      else
        let s0 = (of_char (s ! 0) :: int)
        in if s0 < 0x80 then (s0, 1)
           else if s0 < 0xC2 \<or> 0xF4 < s0 then (RuneError, 1)
           else
             let sz = (if s0 < 0xE0 then 2 else if s0 < 0xF0 then 3 else 4 :: nat);
                 lo = (if s0 = 0xE0 then 0xA0 else if s0 = 0xF0 then 0x90 else 0x80 :: int);
                 hi = (if s0 = 0xED then 0x9F else if s0 = 0xF4 then 0x8F else 0xBF :: int)
             in if length s < sz then (RuneError, 1)
                else
                  let s1 = (of_char (s ! 1) :: int)
                  in if s1 < lo \<or> hi < s1 then (RuneError, 1)
                     else if sz \<le> 2 then ((s0 mod 32) * 64 + s1 mod 64, 2)
                     else
                       let s2 = (of_char (s ! 2) :: int)
                       in if s2 < 0x80 \<or> 0xBF < s2 then (RuneError, 1)
                          else if sz \<le> 3 then
                            ((s0 mod 16) * 4096 + (s1 mod 64) * 64 + s2 mod 64, 3)
                          else
                            let s3 = (of_char (s ! 3) :: int)
                            in if s3 < 0x80 \<or> 0xBF < s3 then (RuneError, 1)
                               else ((s0 mod 8) * 262144 + (s1 mod 64) * 4096
                                     + (s2 mod 64) * 64 + s3 mod 64, 4))"

lemma DecodeRuneInString_width:
  "s \<noteq> [] \<Longrightarrow> 1 \<le> snd (DecodeRuneInString s) \<and> snd (DecodeRuneInString s) \<le> length s"
  by (cases s) (auto simp: DecodeRuneInString_def Let_def Suc_le_eq)

lemma DecodeRuneInString_width_le4: "snd (DecodeRuneInString s) \<le> 4"
  by (auto simp: DecodeRuneInString_def Let_def)

lemma drop_rune_shorter:
  assumes "s \<noteq> []"
  shows "length s - snd (DecodeRuneInString s) < length s"
proof -
  have "1 \<le> snd (DecodeRuneInString s)" using assms DecodeRuneInString_width by blast
  moreover have "0 < length s" using assms by simp
  ultimately show ?thesis by simp
qed

text \<open>The runes a \<^verbatim>\<open>range\<close> loop over a string visits: it decodes as
  \<open>DecodeRuneInString\<close> does and moves on by the width.\<close>

function runes :: "string \<Rightarrow> int list" where
  "runes s =
     (if s = [] then []
      else fst (DecodeRuneInString s) # runes (drop (snd (DecodeRuneInString s)) s))"
  by pat_completeness auto
termination
  by (relation "measure length") (simp_all add: drop_rune_shorter)

declare runes.simps [simp del]

text \<open>\<^verbatim>\<open>utf8.AppendRune\<close>: the bytes of a rune; a surrogate, a negative value or a value
  above \<^verbatim>\<open>0x10FFFF\<close> is written as \<open>RuneError\<close>.\<close>

definition EncodeRune :: "int \<Rightarrow> string" where
  "EncodeRune r =
     (if 0 \<le> r \<and> r \<le> 0x7F then [char_of r]
      else if 0 \<le> r \<and> r \<le> 0x7FF then [char_of (0xC0 + r div 64), char_of (0x80 + r mod 64)]
      else if r < 0 \<or> 0x10FFFF < r \<or> (0xD800 \<le> r \<and> r \<le> 0xDFFF) then
        [CHR 0xEF, CHR 0xBF, CHR 0xBD]
      else if r \<le> 0xFFFF then
        [char_of (0xE0 + r div 4096), char_of (0x80 + (r div 64) mod 64),
         char_of (0x80 + r mod 64)]
      else
        [char_of (0xF0 + r div 262144), char_of (0x80 + (r div 4096) mod 64),
         char_of (0x80 + (r div 64) mod 64), char_of (0x80 + r mod 64)])"

text \<open>\<^verbatim>\<open>utf8.DecodeLastRuneInString\<close>: it steps back from the last byte to the nearest
  byte that can start a rune, at most three bytes away, and decodes from there.\<close>

definition RuneStart :: "char \<Rightarrow> bool" where
  "RuneStart b = ((of_char b :: int) < 0x80 \<or> 0xBF < (of_char b :: int))"

function DecodeLast_start :: "string \<Rightarrow> int \<Rightarrow> int \<Rightarrow> int" where
  "DecodeLast_start s start lim =
     (if start \<ge> lim then
        (if RuneStart (s ! nat start) then start else DecodeLast_start s (start - 1) lim)
      else start)"
  by pat_completeness auto
termination
  by (relation "measure (\<lambda>(s, start, lim). nat (start - lim + 1))") auto

declare DecodeLast_start.simps [simp del]

definition DecodeLastRuneInString :: "string \<Rightarrow> int \<times> nat" where
  "DecodeLastRuneInString s =
     (let n = int (length s)
      in if n = 0 then (RuneError, 0)
         else
           let r = (of_char (s ! nat (n - 1)) :: int)
           in if r < 0x80 then (r, 1)
              else
                let lim = (if n - 4 < 0 then 0 else n - 4);
                    start = DecodeLast_start s (n - 1 - 1) lim;
                    start = (if start < 0 then 0 else start)
                in case DecodeRuneInString (drop (nat start) s) of
                     (r, wid) \<Rightarrow>
                       if start + int wid \<noteq> n then (RuneError, 1) else (r, wid))"

lemma DecodeLast_start_le: "DecodeLast_start s start lim \<le> start"
proof (induction s start lim rule: DecodeLast_start.induct)
  case (1 s start lim)
  show ?case
  proof (cases "start \<ge> lim \<and> \<not> RuneStart (s ! nat start)")
    case True
    then have "DecodeLast_start s start lim = DecodeLast_start s (start - 1) lim"
      by (simp add: DecodeLast_start.simps [of s start])
    moreover have "DecodeLast_start s (start - 1) lim \<le> start - 1"
      using "1.IH" True by simp
    ultimately show ?thesis by simp
  next
    case False
    then show ?thesis by (auto simp: DecodeLast_start.simps [of s start])
  qed
qed

lemma DecodeLastRuneInString_width:
  assumes "s \<noteq> []"
  shows "1 \<le> snd (DecodeLastRuneInString s)"
proof -
  define n where "n = int (length s)"
  define st0 where "st0 = DecodeLast_start s (n - 1 - 1) (if n - 4 < 0 then 0 else n - 4)"
  define st where "st = (if st0 < 0 then 0 else st0)"
  have n: "0 < n" using assms by (simp add: n_def)
  have "st0 \<le> n - 2" using DecodeLast_start_le [of s "n - 1 - 1"] by (simp add: st0_def)
  then have st: "st < n" using n by (simp add: st_def)
  have "snd (DecodeLastRuneInString s) = 1
    \<or> (st + int (snd (DecodeLastRuneInString s)) = n)"
    unfolding DecodeLastRuneInString_def Let_def n_def [symmetric] st0_def [symmetric]
      st_def [symmetric]
    using n by (auto split: prod.splits)
  then show ?thesis using st by auto
qed

subsection \<open>White space\<close>

text \<open>\<^verbatim>\<open>unicode.IsSpace\<close>: the white space of Latin-1, and beyond it the code points with
  the Unicode property White_Space.\<close>

definition IsSpace :: "int \<Rightarrow> bool" where
  "IsSpace r =
     (if r \<le> 0xFF then
        (r = 0x09 \<or> r = 0x0A \<or> r = 0x0B \<or> r = 0x0C \<or> r = 0x0D \<or> r = 0x20
         \<or> r = 0x85 \<or> r = 0xA0)
      else
        (r = 0x1680 \<or> (0x2000 \<le> r \<and> r \<le> 0x200A) \<or> r = 0x2028 \<or> r = 0x2029
         \<or> r = 0x202F \<or> r = 0x205F \<or> r = 0x3000))"

text \<open>\<^verbatim>\<open>strings.TrimLeftFunc(s, unicode.IsSpace)\<close>: the string from its first rune that is
  not white space.\<close>

function TrimLeftSpace :: "string \<Rightarrow> string" where
  "TrimLeftSpace s =
     (if s = [] then []
      else if IsSpace (fst (DecodeRuneInString s))
      then TrimLeftSpace (drop (snd (DecodeRuneInString s)) s)
      else s)"
  by pat_completeness auto
termination
  by (relation "measure length") (simp_all add: drop_rune_shorter)

declare TrimLeftSpace.simps [simp del]

text \<open>\<^verbatim>\<open>strings.TrimRightFunc(s, unicode.IsSpace)\<close>. \<open>lastIndexNotSpace\<close> is
  \<^verbatim>\<open>lastIndexFunc\<close>: it decodes runes from the end of \<open>s[0:i]\<close> and returns the index of
  the last rune that is not white space, or \<open>-1\<close>. The loop starts at the length of \<open>s\<close>,
  so \<open>i\<close> is never beyond it.\<close>

function lastIndexNotSpace :: "string \<Rightarrow> int \<Rightarrow> int" where
  "lastIndexNotSpace s i =
     (if i > 0 \<and> i \<le> int (length s) then
        (let r = fst (DecodeLastRuneInString (take (nat i) s));
             wid = snd (DecodeLastRuneInString (take (nat i) s));
             i' = i - int wid
         in if \<not> IsSpace r then i' else lastIndexNotSpace s i')
      else -1)"
  by pat_completeness auto
termination
proof (relation "measure (\<lambda>(s, i). nat i)", goal_cases)
  case 1
  then show ?case by simp
next
  case (2 s i r wid i')
  then have "take (nat i) s \<noteq> []" by auto
  then have "1 \<le> snd (DecodeLastRuneInString (take (nat i) s))"
    by (rule DecodeLastRuneInString_width)
  then show ?case using 2 by simp
qed

declare lastIndexNotSpace.simps [simp del]

definition TrimRightSpace :: "string \<Rightarrow> string" where
  "TrimRightSpace s =
     (let i = lastIndexNotSpace s (int (length s))
      in if i \<ge> 0 \<and> (of_char (s ! nat i) :: int) \<ge> 0x80
         then take (nat (i + int (snd (DecodeRuneInString (drop (nat i) s))))) s
         else take (nat (i + 1)) s)"

definition asciiSpace :: "char \<Rightarrow> bool" where
  "asciiSpace c = (c = CHR 0x09 \<or> c = CHR 0x0A \<or> c = CHR 0x0B \<or> c = CHR 0x0C
                   \<or> c = CHR 0x0D \<or> c = CHR '' '')"

text \<open>
  \<^verbatim>\<open>strings.TrimSpace\<close>. It skips ASCII white space from the front; at a byte that is
  not ASCII it hands the rest to \<^verbatim>\<open>TrimFunc\<close>, the left trim followed by the right
  trim. Otherwise it skips ASCII white space from the back, and at a byte that is not
  ASCII hands what is left to \<^verbatim>\<open>TrimRightFunc\<close>.
\<close>

definition TrimSpace :: "string \<Rightarrow> string" where
  "TrimSpace s =
     (let rest = dropWhile asciiSpace s
      in if rest \<noteq> [] \<and> (of_char (hd rest) :: int) \<ge> 0x80
         then TrimRightSpace (TrimLeftSpace rest)
         else
           let kept = rev (dropWhile asciiSpace (rev rest))
           in if kept \<noteq> [] \<and> (of_char (last kept) :: int) \<ge> 0x80
              then TrimRightSpace kept
              else kept)"

subsection \<open>Letter case\<close>

text \<open>
  The two things the program's calls need from the case tables of Unicode:
  \<open>To_LowerCase U r\<close> is \<^verbatim>\<open>unicode.To(unicode.LowerCase, r)\<close> for a rune above ASCII, and
  \<open>SimpleFold_reaches U sr tr\<close> says whether the orbit of \<open>sr\<close> under
  \<^verbatim>\<open>unicode.SimpleFold\<close>, followed from \<open>sr\<close> upwards, arrives at \<open>tr\<close> (the loop at the
  end of \<^verbatim>\<open>strings.EqualFold\<close>).
\<close>

record Unicode =
  To_LowerCase :: "int \<Rightarrow> int"
  SimpleFold_reaches :: "int \<Rightarrow> int \<Rightarrow> bool"

definition unicode_ToLower :: "Unicode \<Rightarrow> int \<Rightarrow> int" where
  "unicode_ToLower U r =
     (if r \<le> 0x7F then (if 0x41 \<le> r \<and> r \<le> 0x5A then r + 0x20 else r)
      else To_LowerCase U r)"

text \<open>
  \<^verbatim>\<open>strings.Map(unicode.ToLower, s)\<close>. Up to the first rune that changes, or the first
  byte that is no well-formed rune, the bytes are copied; from there on every rune is
  replaced by the encoding of its image (\<open>Map_rest\<close>). \<open>WriteMapped\<close> is what \<^verbatim>\<open>Map\<close>
  writes for an image: nothing if it is negative.
\<close>

definition WriteMapped :: "int \<Rightarrow> string" where
  "WriteMapped r = (if r \<ge> 0 then EncodeRune r else [])"

function Map_rest :: "Unicode \<Rightarrow> string \<Rightarrow> string" where
  "Map_rest U s =
     (if s = [] then []
      else WriteMapped (unicode_ToLower U (fst (DecodeRuneInString s)))
           @ Map_rest U (drop (snd (DecodeRuneInString s)) s))"
  by pat_completeness auto
termination
  by (relation "measure (\<lambda>(U, s). length s)") (simp_all add: drop_rune_shorter)

declare Map_rest.simps [simp del]

function Map_ToLower :: "Unicode \<Rightarrow> string \<Rightarrow> string" where
  "Map_ToLower U s =
     (if s = [] then []
      else if unicode_ToLower U (fst (DecodeRuneInString s)) = fst (DecodeRuneInString s)
              \<and> \<not> (fst (DecodeRuneInString s) = RuneError \<and> snd (DecodeRuneInString s) = 1)
      then take (snd (DecodeRuneInString s)) s
           @ Map_ToLower U (drop (snd (DecodeRuneInString s)) s)
      else WriteMapped (unicode_ToLower U (fst (DecodeRuneInString s)))
           @ Map_rest U (drop (snd (DecodeRuneInString s)) s))"
  by pat_completeness auto
termination
  by (relation "measure (\<lambda>(U, s). length s)") (simp_all add: drop_rune_shorter)

declare Map_ToLower.simps [simp del]

definition isUpper :: "char \<Rightarrow> bool" where
  "isUpper c = (0x41 \<le> (of_char c :: int) \<and> (of_char c :: int) \<le> 0x5A)"

definition toLowerChar :: "char \<Rightarrow> char" where
  "toLowerChar c = (if isUpper c then char_of ((of_char c :: int) + 0x20) else c)"

text \<open>\<^verbatim>\<open>strings.ToLower\<close>: ASCII strings are lower-cased byte by byte, the others go
  through \<^verbatim>\<open>Map\<close>.\<close>

definition ToLower :: "Unicode \<Rightarrow> string \<Rightarrow> string" where
  "ToLower U s =
     (if list_all (\<lambda>c. (of_char c :: int) < 0x80) s then
        (if \<not> list_ex isUpper s then s else map toLowerChar s)
      else Map_ToLower U s)"

text \<open>
  \<^verbatim>\<open>strings.EqualFold\<close> compares the two strings rune by rune (a byte that is no
  well-formed rune counts as \<open>RuneError\<close>). Two runes agree when they are equal, when
  both are ASCII and one is the capital of the other, or when the smaller folds to the
  larger.
\<close>

definition foldEq :: "Unicode \<Rightarrow> int \<Rightarrow> int \<Rightarrow> bool" where
  "foldEq U sr tr =
     (if tr = sr then True
      else
        let lo = min sr tr; hi = max sr tr
        in if hi < 0x80 then (0x41 \<le> lo \<and> lo \<le> 0x5A \<and> hi = lo + 0x20)
           else SimpleFold_reaches U lo hi)"

function EqualFold :: "Unicode \<Rightarrow> string \<Rightarrow> string \<Rightarrow> bool" where
  "EqualFold U s t =
     (if s \<noteq> [] \<and> t \<noteq> [] then
        (if foldEq U (fst (DecodeRuneInString s)) (fst (DecodeRuneInString t))
         then EqualFold U (drop (snd (DecodeRuneInString s)) s)
                (drop (snd (DecodeRuneInString t)) t)
         else False)
      else s = t)"
  by pat_completeness auto
termination
  by (relation "measure (\<lambda>(U, s, t). length s)") (simp_all add: drop_rune_shorter)

declare EqualFold.simps [simp del]

text \<open>\<^verbatim>\<open>strings.Split(s, sep)\<close> for a one-byte separator: the pieces between the
  separators, empty ones included; the empty string gives one empty piece.\<close>

fun Split :: "string \<Rightarrow> char \<Rightarrow> string list" where
  "Split [] sep = [[]]"
| "Split (c # cs) sep =
     (if c = sep then [] # Split cs sep
      else (case Split cs sep of
              [] \<Rightarrow> [[c]]
            | w # ws \<Rightarrow> (c # w) # ws))"

fun Join :: "string list \<Rightarrow> string \<Rightarrow> string" where
  "Join [] sep = []"
| "Join [x] sep = x"
| "Join (x # y # ys) sep = x @ sep @ Join (y # ys) sep"

text \<open>\<^verbatim>\<open>strings.ReplaceAll(s, old, new)\<close> for a one-byte \<^verbatim>\<open>old\<close>.\<close>

fun ReplaceAll :: "string \<Rightarrow> char \<Rightarrow> string \<Rightarrow> string" where
  "ReplaceAll [] old new = []"
| "ReplaceAll (c # cs) old new =
     (if c = old then new @ ReplaceAll cs old new else c # ReplaceAll cs old new)"

section \<open>Errors\<close>

text \<open>
  Every \<^verbatim>\<open>errors.New\<close> and \<^verbatim>\<open>fmt.Errorf\<close> of the program is a constructor; an
  error wrapped with \<^verbatim>\<open>%w\<close> keeps the wrapped error as an argument. \<open>External\<close>
  stands for an error handed up by the Go library or the operating system.
\<close>

datatype error =
    External string
  | EmptyURL
  | ParseURLFailed error
  | MissingHost string
  | UnsupportedFormat string
  | ParseRepositoryPath error
  | EmptyRepositoryPath
  | IncompleteRepositoryPath string
  | InvalidRepositoryName string
  | InvalidOwnershipPath string
  | NilRemote
  | EmptyHost
  | NoRuleMatched string string
  | MissingConfig
  | MatchFailedWithHint error string
  | ExpandKeyFailed string error
  | EmptyPath
  | HomeDirFailed error
  | AbsPathFailed error
  | MissingCloneTarget
  | ErrBadPattern

section \<open>The pattern of the shorthand form\<close>

text \<open>
  \<^verbatim>\<open>scpLikeRe = ^(?:(?P<user>[^@]+)@)?(?P<host>[^:]+):(?P<path>.+)$\<close>

  Go's regexp package prefers, at each choice, the first alternative that leads to an
  overall match, and a greedy operator prefers to take more. The expression is anchored
  at both ends, so a match is decided as follows.
  \<^item> With the optional group: \<^verbatim>\<open>[^@]+\<close> cannot cross a \<^verbatim>\<open>@\<close> and must be followed by
    one, so \<open>user\<close> is the non-empty text before the first \<^verbatim>\<open>@\<close>; in the same way
    \<open>host\<close> is the non-empty text between that \<^verbatim>\<open>@\<close> and the next \<^verbatim>\<open>:\<close>, and
    \<open>path\<close> is everything after that colon, non-empty and free of line feeds
    (\<^verbatim>\<open>.\<close> does not match a line feed, and \<^verbatim>\<open>$\<close> is the end of the text).
  \<^item> If that fails, without the group: \<open>host\<close> is the non-empty text before the first
    \<^verbatim>\<open>:\<close> and \<open>path\<close> the rest, as before; \<open>user\<close> is empty.
  \<open>FindStringSubmatch\<close> returns the three groups, or \<^verbatim>\<open>nil\<close> (here \<open>None\<close>).
\<close>

definition scpHostPath :: "string \<Rightarrow> (string \<times> string) option" where
  "scpHostPath s =
     (let host = takeWhile (\<lambda>c. c \<noteq> CHR '':'') s;
          rest = dropWhile (\<lambda>c. c \<noteq> CHR '':'') s
      in if host \<noteq> [] \<and> rest \<noteq> [] \<and> tl rest \<noteq> [] \<and> CHR 0x0A \<notin> set (tl rest)
         then Some (host, tl rest) else None)"

definition scpWithUser :: "string \<Rightarrow> (string \<times> string \<times> string) option" where
  "scpWithUser s =
     (let user = takeWhile (\<lambda>c. c \<noteq> CHR ''@'') s;
          rest = dropWhile (\<lambda>c. c \<noteq> CHR ''@'') s
      in if user \<noteq> [] \<and> rest \<noteq> []
         then (case scpHostPath (tl rest) of
                 None \<Rightarrow> None
               | Some (host, path) \<Rightarrow> Some (user, host, path))
         else None)"

definition scpLikeRe_FindStringSubmatch :: "string \<Rightarrow> (string \<times> string \<times> string) option" where
  "scpLikeRe_FindStringSubmatch s =
     (case scpWithUser s of
        Some m \<Rightarrow> Some m
      | None \<Rightarrow> (case scpHostPath s of
                   None \<Rightarrow> None
                 | Some (host, path) \<Rightarrow> Some ([], host, path)))"

definition scpLikeRe_MatchString :: "string \<Rightarrow> bool" where
  "scpLikeRe_MatchString s = (scpLikeRe_FindStringSubmatch s \<noteq> None)"

definition IsLikelyRemoteURL :: "string \<Rightarrow> bool" where
  "IsLikelyRemoteURL s =
     (if Contains s ''://'' then True else scpLikeRe_MatchString s)"

section \<open>Cleaning a slash-separated path\<close>

text \<open>
  Go's \<^verbatim>\<open>path.Clean\<close> (and \<^verbatim>\<open>filepath.Clean\<close> on Unix) reads the path from left to
  right and writes into a buffer: empty and \<^verbatim>\<open>.\<close> elements are dropped, a \<^verbatim>\<open>..\<close>
  element removes the element written last, or is kept when there is none and the path
  is not rooted. \<open>dotdot\<close> is the length of the buffer's prefix that \<^verbatim>\<open>..\<close> may not
  remove. \<open>Clean_backtrack\<close> is the inner loop that moves the write index back to the
  previous slash.
\<close>

function Clean_backtrack :: "string \<Rightarrow> nat \<Rightarrow> nat \<Rightarrow> nat" where
  "Clean_backtrack out w dotdot =
     (if w > dotdot \<and> out ! w \<noteq> CHR ''/'' then Clean_backtrack out (w - 1) dotdot else w)"
  by pat_completeness auto
termination
  by (relation "measure (\<lambda>(out, w, dotdot). w)") auto

declare Clean_backtrack.simps [simp del]

function Clean_loop :: "bool \<Rightarrow> string \<Rightarrow> string \<Rightarrow> nat \<Rightarrow> string" where
  "Clean_loop rooted p out dotdot =
     (case p of
        [] \<Rightarrow> out
      | c # cs \<Rightarrow>
          if c = CHR ''/'' then Clean_loop rooted cs out dotdot
          else if c = CHR ''.'' \<and> (cs = [] \<or> hd cs = CHR ''/'') then
            Clean_loop rooted cs out dotdot
          else if c = CHR ''.'' \<and> hd cs = CHR ''.'' \<and> (tl cs = [] \<or> hd (tl cs) = CHR ''/'') then
            (if length out > dotdot then
               Clean_loop rooted (tl cs)
                 (take (Clean_backtrack out (length out - 1) dotdot) out) dotdot
             else if \<not> rooted then
               (let out' = (if length out > 0 then out @ ''/'' else out) @ ''..''
                in Clean_loop rooted (tl cs) out' (length out'))
             else Clean_loop rooted (tl cs) out dotdot)
          else
            (let out' = (if rooted \<and> length out \<noteq> 1 \<or> \<not> rooted \<and> length out \<noteq> 0
                         then out @ ''/'' else out)
             in Clean_loop rooted (dropWhile (\<lambda>x. x \<noteq> CHR ''/'') cs)
                  (out' @ c # takeWhile (\<lambda>x. x \<noteq> CHR ''/'') cs) dotdot))"
  by pat_completeness auto
termination
  by (relation "measure (\<lambda>(rooted, p, out, dotdot). length p)")
    (simp_all add: less_Suc_eq_le length_dropWhile_le)

declare Clean_loop.simps [simp del]

definition Clean :: "string \<Rightarrow> string" where
  "Clean path =
     (if path = [] then ''.''
      else
        let rooted = (hd path = CHR ''/'');
            out = (if rooted then Clean_loop rooted (tl path) ''/'' 1
                   else Clean_loop rooted path [] 0)
        in if length out = 0 then ''.'' else out)"

section \<open>Parsing a remote identifier\<close>

datatype Transport = TransportSSH | TransportHTTPS | TransportOther

record ParsedRemote =
  Original :: string
  Transport :: Transport
  Scheme :: string
  User :: string
  Host :: string
  Port :: string
  Owner :: string
  Repo :: string
  RawPath :: string
  IsRemoteURL :: bool

definition IsSSH :: "ParsedRemote \<Rightarrow> bool" where
  "IsSSH p = (Transport p = TransportSSH)"

definition IsHTTPS :: "ParsedRemote \<Rightarrow> bool" where
  "IsHTTPS p = (Transport p = TransportHTTPS)"

text \<open>
  \<^verbatim>\<open>url.Parse\<close> belongs to Go's library. \<open>parseURL\<close> reads five things from the
  value it returns: \<^verbatim>\<open>u.Scheme\<close>, \<^verbatim>\<open>u.User\<close> (absent, or with a user name),
  \<^verbatim>\<open>u.Hostname()\<close>, \<^verbatim>\<open>u.Port()\<close> and \<^verbatim>\<open>u.Path\<close>. The record below holds these five,
  and the parser itself is a parameter \<open>url_Parse\<close> of \<open>parseURL\<close> and \<open>Parse\<close>, so
  that what is proved holds whatever \<^verbatim>\<open>url.Parse\<close> returns. (\<open>U\<close> is there for the
  lower-casing of the scheme.)
\<close>

record GoURL =
  urlScheme :: string
  urlUsername :: "string option"
  urlHostname :: string
  urlPort :: string
  urlPath :: string

definition stripGitSuffix :: "string \<Rightarrow> string" where
  "stripGitSuffix repo = TrimSuffix repo ''.git''"

definition splitRepoPath :: "string \<Rightarrow> error + (string \<times> string \<times> string)" where
  "splitRepoPath rawPath =
     (let p = TrimSpace rawPath;
          p = TrimPrefix p ''/'';
          p = TrimPrefix p ''./'';
          p = TrimSuffix p ''/''
      in if p = [] then Inl EmptyRepositoryPath
         else
           let segs = Split p (CHR ''/'');
               filtered = filter (\<lambda>s. s \<noteq> []) segs
           in if length filtered < 2 then Inl (IncompleteRepositoryPath rawPath)
              else
                let repo = stripGitSuffix (last filtered)
                in if repo = [] then Inl (InvalidRepositoryName rawPath)
                   else
                     let owner = Clean (Join (butlast filtered) ''/'');
                         owner = (if owner = ''.'' then [] else owner)
                     in if owner = [] then Inl (InvalidOwnershipPath rawPath)
                        else Inr (owner, repo, Join filtered ''/''))"

definition parseURL ::
  "Unicode \<Rightarrow> (string \<Rightarrow> error + GoURL) \<Rightarrow> string \<Rightarrow> error + ParsedRemote" where
  "parseURL U url_Parse raw =
     (case url_Parse raw of
        Inl err \<Rightarrow> Inl (ParseURLFailed err)
      | Inr u \<Rightarrow>
          let host = urlHostname u
          in if host = [] then Inl (MissingHost raw)
             else
               (case splitRepoPath (urlPath u) of
                  Inl err \<Rightarrow> Inl (ParseRepositoryPath err)
                | Inr (owner, repo, cleanPath) \<Rightarrow>
                    let out = \<lparr>Original = raw, Transport = TransportOther,
                               Scheme = ToLower U (urlScheme u), User = [], Host = host,
                               Port = urlPort u, Owner = owner, Repo = repo,
                               RawPath = cleanPath, IsRemoteURL = True\<rparr>;
                        out = (case urlUsername u of
                                 None \<Rightarrow> out
                               | Some name \<Rightarrow> out\<lparr>User := name\<rparr>);
                        out = (if ToLower U (urlScheme u) = ''ssh''
                               then out\<lparr>Transport := TransportSSH\<rparr>
                               else if ToLower U (urlScheme u) = ''https''
                               then out\<lparr>Transport := TransportHTTPS\<rparr>
                               else out)
                    in Inr out))"

definition parseSCPLike :: "string \<Rightarrow> error + ParsedRemote" where
  "parseSCPLike raw =
     (case scpLikeRe_FindStringSubmatch raw of
        None \<Rightarrow> Inl (UnsupportedFormat raw)
      | Some (user, host, rawPath) \<Rightarrow>
          (case splitRepoPath rawPath of
             Inl err \<Rightarrow> Inl (ParseRepositoryPath err)
           | Inr (owner, repo, cleanPath) \<Rightarrow>
               Inr \<lparr>Original = raw, Transport = TransportSSH, Scheme = ''ssh'',
                    User = user, Host = host, Port = [], Owner = owner, Repo = repo,
                    RawPath = cleanPath, IsRemoteURL = True\<rparr>))"

definition Parse ::
  "Unicode \<Rightarrow> (string \<Rightarrow> error + GoURL) \<Rightarrow> string \<Rightarrow> error + ParsedRemote" where
  "Parse U url_Parse input =
     (let s = TrimSpace input
      in if s = [] then Inl EmptyURL
         else if Contains s ''://'' then parseURL U url_Parse s
         else parseSCPLike s)"

section \<open>Shell patterns\<close>

text \<open>
  \<^verbatim>\<open>filepath.Match\<close> of Go's library, on Unix (the separator is \<^verbatim>\<open>/\<close>, the backslash
  escapes), transcribed function by function: \<^verbatim>\<open>scanChunk\<close>, \<^verbatim>\<open>getEsc\<close>,
  \<^verbatim>\<open>matchChunk\<close> and \<^verbatim>\<open>Match\<close>. A pattern is a sequence of chunks separated by
  runs of \<^verbatim>\<open>*\<close>. The result is \<open>Inr matched\<close>, or \<open>Inl ErrBadPattern\<close> where Go returns
  an error. The lemmas between the definitions are the ones their termination needs.
\<close>

fun scanChunk_split :: "string \<Rightarrow> bool \<Rightarrow> string \<times> string" where
  "scanChunk_split [] inrange = ([], [])"
| "scanChunk_split (c # cs) inrange =
     (if c = CHR 0x5C then
        (case cs of
           [] \<Rightarrow> ([c], [])
         | d # ds \<Rightarrow> (case scanChunk_split ds inrange of (chunk, rest) \<Rightarrow> (c # d # chunk, rest)))
      else if c = CHR ''['' then
        (case scanChunk_split cs True of (chunk, rest) \<Rightarrow> (c # chunk, rest))
      else if c = CHR '']'' then
        (case scanChunk_split cs False of (chunk, rest) \<Rightarrow> (c # chunk, rest))
      else if c = CHR ''*'' \<and> \<not> inrange then ([], c # cs)
      else (case scanChunk_split cs inrange of (chunk, rest) \<Rightarrow> (c # chunk, rest)))"

definition scanChunk :: "string \<Rightarrow> bool \<times> string \<times> string" where
  "scanChunk pattern =
     (let star = (pattern \<noteq> [] \<and> hd pattern = CHR ''*'');
          pattern = dropWhile (\<lambda>c. c = CHR ''*'') pattern
      in (star, scanChunk_split pattern False))"

definition getEsc :: "string \<Rightarrow> error + (int \<times> string)" where
  "getEsc chunk =
     (if chunk = [] \<or> hd chunk = CHR ''-'' \<or> hd chunk = CHR '']'' then Inl ErrBadPattern
      else if hd chunk = CHR 0x5C \<and> tl chunk = [] then Inl ErrBadPattern
      else
        let chunk = (if hd chunk = CHR 0x5C then tl chunk else chunk);
            r = fst (DecodeRuneInString chunk);
            n = snd (DecodeRuneInString chunk);
            nchunk = drop n chunk
        in if r = RuneError \<and> n = 1 then Inl ErrBadPattern
           else if nchunk = [] then Inl ErrBadPattern
           else Inr (r, nchunk))"

lemma getEsc_length:
  assumes "getEsc chunk = Inr (r, nchunk)"
  shows "length nchunk < length chunk"
proof -
  define c where "c = (if hd chunk = CHR 0x5C then tl chunk else chunk)"
  have ne: "chunk \<noteq> []" using assms by (auto simp: getEsc_def)
  have cne: "c \<noteq> []" using assms ne by (auto simp: getEsc_def c_def split: if_splits)
  have "nchunk = drop (snd (DecodeRuneInString c)) c"
    using assms by (auto simp: getEsc_def Let_def c_def split: if_splits)
  then have "length nchunk < length c" using drop_rune_shorter [OF cne] by simp
  moreover have "length c \<le> length chunk" by (simp add: c_def)
  ultimately show ?thesis by simp
qed

lemma getEsc_nonempty: "getEsc chunk = Inr (r, nchunk) \<Longrightarrow> nchunk \<noteq> []"
  by (auto simp: getEsc_def Let_def split: if_splits)

function matchRanges :: "string \<Rightarrow> int \<Rightarrow> bool \<Rightarrow> nat \<Rightarrow> error + (bool \<times> string)" where
  "matchRanges chunk r match nrange =
     (if chunk \<noteq> [] \<and> hd chunk = CHR '']'' \<and> nrange > 0 then Inr (match, tl chunk)
      else
        (case getEsc chunk of
           Inl err \<Rightarrow> Inl err
         | Inr (lo, chunk1) \<Rightarrow>
             if hd chunk1 = CHR ''-'' then
               (case getEsc (tl chunk1) of
                  Inl err \<Rightarrow> Inl err
                | Inr (hi, chunk2) \<Rightarrow>
                    matchRanges chunk2 r (if lo \<le> r \<and> r \<le> hi then True else match) (nrange + 1))
             else matchRanges chunk1 r (if lo \<le> r \<and> r \<le> lo then True else match) (nrange + 1)))"
  by pat_completeness auto
termination
proof (relation "measure (\<lambda>(chunk, r, match, nrange). length chunk)", goal_cases)
  case 1
  then show ?case by simp
next
  case (2 chunk r match nrange x2 lo chunk1 x2a hi chunk2)
  then show ?case
    using getEsc_length [of chunk lo chunk1] getEsc_length [of "tl chunk1" hi chunk2]
    by (cases chunk1) auto
next
  case (3 chunk r match nrange x2 lo chunk1)
  then show ?case using getEsc_length [of chunk lo chunk1] by auto
qed

declare matchRanges.simps [simp del]

lemma matchRanges_length:
  "matchRanges chunk r match nrange = Inr (m, rest) \<Longrightarrow> length rest < length chunk"
proof (induction chunk r match nrange rule: matchRanges.induct)
  case (1 chunk r match nrange)
  show ?case
  proof (cases "chunk \<noteq> [] \<and> hd chunk = CHR '']'' \<and> nrange > 0")
    case True
    then show ?thesis using "1.prems" by (auto simp: matchRanges.simps [of chunk])
  next
    case False
    note nf = this
    show ?thesis
    proof (cases "getEsc chunk")
      case (Inl e)
      then show ?thesis using "1.prems" nf by (simp add: matchRanges.simps [of chunk])
    next
      case (Inr lc)
      obtain lo chunk1 where lc: "lc = (lo, chunk1)" by (cases lc)
      have l1: "length chunk1 < length chunk" using Inr lc getEsc_length by blast
      show ?thesis
      proof (cases "hd chunk1 = CHR ''-''")
        case True
        show ?thesis
        proof (cases "getEsc (tl chunk1)")
          case (Inl e)
          then show ?thesis using "1.prems" nf Inr lc True
            by (simp add: matchRanges.simps [of chunk])
        next
          case (Inr hc)
          obtain hi chunk2 where hc: "hc = (hi, chunk2)" by (cases hc)
          have "length chunk2 < length (tl chunk1)" using Inr hc getEsc_length by blast
          moreover have "length rest < length chunk2"
            using "1.IH"(1) [OF nf \<open>getEsc chunk = Inr lc\<close> lc [symmetric] True Inr hc [symmetric]]
              "1.prems" nf \<open>getEsc chunk = Inr lc\<close> lc True Inr hc
            by (simp add: matchRanges.simps [of chunk])
          ultimately show ?thesis using l1 by simp
        qed
      next
        case False
        have "length rest < length chunk1"
          using "1.IH"(2) [OF nf Inr lc [symmetric] False] "1.prems" nf Inr lc False
          by (simp add: matchRanges.simps [of chunk])
        then show ?thesis using l1 by simp
      qed
    qed
  qed
qed

text \<open>
  \<^verbatim>\<open>matchChunk\<close>: the chunk holds only one-character operators (literals, classes,
  \<^verbatim>\<open>?\<close>). A class and \<^verbatim>\<open>?\<close> take one rune of \<open>s\<close>, a literal one byte. After a
  mismatch the loop goes on reading the chunk, to report a malformed pattern, but no
  longer reads \<open>s\<close>; \<open>failed\<close> records that.
\<close>

function matchChunk_loop :: "string \<Rightarrow> string \<Rightarrow> bool \<Rightarrow> error + (string \<times> bool)" where
  "matchChunk_loop chunk s failed =
     (if chunk = [] then (if failed then Inr ([], False) else Inr (s, True))
      else
        let failed = (if \<not> failed \<and> s = [] then True else failed)
        in if hd chunk = CHR ''['' then
             (let r = (if \<not> failed then fst (DecodeRuneInString s) else 0);
                  s = (if \<not> failed then drop (snd (DecodeRuneInString s)) s else s);
                  chunk = tl chunk;
                  negated = (chunk \<noteq> [] \<and> hd chunk = CHR ''^'');
                  chunk = (if negated then tl chunk else chunk)
              in case matchRanges chunk r False 0 of
                   Inl err \<Rightarrow> Inl err
                 | Inr (match, chunk') \<Rightarrow>
                     matchChunk_loop chunk' s (if match = negated then True else failed))
           else if hd chunk = CHR ''?'' then
             (if \<not> failed
              then matchChunk_loop (tl chunk) (drop (snd (DecodeRuneInString s)) s)
                     (if hd s = CHR ''/'' then True else failed)
              else matchChunk_loop (tl chunk) s failed)
           else if hd chunk = CHR 0x5C \<and> tl chunk = [] then Inl ErrBadPattern
           else
             (let chunk = (if hd chunk = CHR 0x5C then tl chunk else chunk)
              in if \<not> failed
                 then matchChunk_loop (tl chunk) (tl s) (if hd chunk \<noteq> hd s then True else failed)
                 else matchChunk_loop (tl chunk) s failed))"
  by pat_completeness auto
termination
proof (relation "measure (\<lambda>(chunk, s, failed). length chunk)", goal_cases)
  case 1
  then show ?case by simp
next
  case (2 chunk s failed f r s2 c2 neg c3 x2 match chunk')
  then show ?case
    using matchRanges_length [of c3 r False 0 match chunk']
    by (cases chunk) (auto split: if_splits)
qed (auto simp: Let_def split: if_splits)

declare matchChunk_loop.simps [simp del]

definition matchChunk :: "string \<Rightarrow> string \<Rightarrow> error + (string \<times> bool)" where
  "matchChunk chunk s = matchChunk_loop chunk s False"


lemma scanChunk_split_length:
  "scanChunk_split p inrange = (chunk, rest) \<Longrightarrow> length rest \<le> length p"
proof (induction p inrange arbitrary: chunk rest rule: scanChunk_split.induct)
  case (1 inrange)
  then show ?case by simp
next
  case (2 c cs inrange)
  then show ?case
    by (auto split: if_splits list.splits prod.splits) fastforce+
qed

lemma scanChunk_split_shorter:
  "scanChunk_split p False = (chunk, rest) \<Longrightarrow> p \<noteq> [] \<Longrightarrow> hd p \<noteq> CHR ''*''
     \<Longrightarrow> length rest < length p"
  using scanChunk_split_length
  by (cases p) (auto split: if_splits list.splits prod.splits simp: less_Suc_eq_le, fastforce+)

lemma scanChunk_shorter:
  assumes "scanChunk pattern = (star, chunk, rest)" "pattern \<noteq> []"
  shows "length rest < length pattern"
proof (cases "hd pattern = CHR ''*''")
  case True
  then obtain cs where p: "pattern = CHR ''*'' # cs" using assms(2) by (cases pattern) auto
  have "length (dropWhile (\<lambda>c. c = CHR ''*'') pattern) \<le> length cs"
    using length_dropWhile_le [of "\<lambda>c. c = CHR ''*''" cs] by (simp add: p)
  moreover have "length rest \<le> length (dropWhile (\<lambda>c. c = CHR ''*'') pattern)"
    using assms(1) scanChunk_split_length by (auto simp: scanChunk_def Let_def)
  ultimately show ?thesis by (simp add: p)
next
  case False
  then have "dropWhile (\<lambda>c. c = CHR ''*'') pattern = pattern"
    using assms(2) by (cases pattern) auto
  then show ?thesis
    using assms False scanChunk_split_shorter [of pattern chunk rest]
    by (auto simp: scanChunk_def Let_def)
qed

text \<open>
  \<^verbatim>\<open>Match\<close>. After a star, \<open>Match_skip\<close> looks for the chunk after skipping one more
  byte of the name each time, never past a slash.
\<close>

fun Match_skip :: "string \<Rightarrow> string \<Rightarrow> string \<Rightarrow> error + string option" where
  "Match_skip chunk pattern [] = Inr None"
| "Match_skip chunk pattern (c # cs) =
     (if c = CHR ''/'' then Inr None
      else
        (case matchChunk chunk cs of
           Inl err \<Rightarrow> Inl err
         | Inr (t, ok) \<Rightarrow>
             if ok \<and> \<not> (length pattern = 0 \<and> length t > 0) then Inr (Some t)
             else Match_skip chunk pattern cs))"

function Match_loop :: "string \<Rightarrow> string \<Rightarrow> error + bool" where
  "Match_loop pattern name =
     (if length pattern > 0 then
        (case scanChunk pattern of
           (star, chunk, rest) \<Rightarrow>
             if star \<and> chunk = [] then Inr (\<not> Contains name ''/'')
             else
               (case matchChunk chunk name of
                  Inl err \<Rightarrow> Inl err
                | Inr (t, ok) \<Rightarrow>
                    if ok \<and> (length t = 0 \<or> length rest > 0) then Match_loop rest t
                    else if star then
                      (case Match_skip chunk rest name of
                         Inl err \<Rightarrow> Inl err
                       | Inr (Some t') \<Rightarrow> Match_loop rest t'
                       | Inr None \<Rightarrow> Inr False)
                    else Inr False))
      else Inr (length name = 0))"
  by pat_completeness auto
termination
  by (relation "measure (\<lambda>(pattern, name). length pattern)")
    (auto dest: scanChunk_shorter [OF sym])

declare Match_loop.simps [simp del]

definition filepath_Match :: "string \<Rightarrow> string \<Rightarrow> error + bool" where
  "filepath_Match pattern name = Match_loop pattern name"


section \<open>Matching rules\<close>

text \<open>Go's \<^verbatim>\<open>int\<close> is a 64-bit two's-complement integer on 64-bit platforms, which
  the model takes: \<open>Priority\<close> and \<open>Score\<close> are 64-bit words, compared as signed
  values. An index into a slice cannot overflow and is a natural number.\<close>

record Rule =
  ID :: string
  Host :: string
  Owner :: string
  Key :: string
  Priority :: "64 word"

record Config =
  Version :: "64 word"
  Rules :: "Rule list"

record MatchResult =
  Rule :: Rule
  Score :: "64 word"
  Index :: nat

definition normalizePattern :: "string \<Rightarrow> string" where
  "normalizePattern s = (let s = TrimSpace s in if s = [] then ''*'' else s)"

definition hasWildcard :: "string \<Rightarrow> bool" where
  "hasWildcard pattern = ContainsAny pattern ''*?[''"

text \<open>The loop of \<^verbatim>\<open>literalChars\<close> runs over the runes of the pattern.\<close>

fun literalChars_loop :: "int list \<Rightarrow> 64 word \<Rightarrow> 64 word" where
  "literalChars_loop [] n = n"
| "literalChars_loop (r # rs) n =
     (if r = 0x2A \<or> r = 0x3F \<or> r = 0x5B \<or> r = 0x5D
      then literalChars_loop rs n
      else literalChars_loop rs (n + 1))"

definition literalChars :: "string \<Rightarrow> 64 word" where
  "literalChars pattern = literalChars_loop (runes pattern) 0"

definition specificityScore :: "Unicode \<Rightarrow> string \<Rightarrow> string \<Rightarrow> 64 word" where
  "specificityScore U pattern v =
     (if pattern = ''*'' then 0
      else if \<not> hasWildcard pattern \<and> EqualFold U pattern v then 400
      else if \<not> hasWildcard pattern then 300
      else 100)"

definition matchRule :: "Unicode \<Rightarrow> Rule \<Rightarrow> ParsedRemote \<Rightarrow> bool \<times> 64 word" where
  "matchRule U r remote =
     (let hostPattern = normalizePattern (ToLower U (Rule.Host r));
          ownerPattern = normalizePattern (ToLower U (Rule.Owner r));
          hostValue = ToLower U (ParsedRemote.Host remote);
          ownerValue = ToLower U (ParsedRemote.Owner remote)
      in case filepath_Match hostPattern hostValue of
           Inl err \<Rightarrow> (False, 0)
         | Inr hostOK \<Rightarrow>
             if \<not> hostOK then (False, 0)
             else
               (case filepath_Match ownerPattern ownerValue of
                  Inl err \<Rightarrow> (False, 0)
                | Inr ownerOK \<Rightarrow>
                    if \<not> ownerOK then (False, 0)
                    else
                      let score = Priority r * 1000;
                          score = score + specificityScore U hostPattern hostValue;
                          score = score + specificityScore U ownerPattern ownerValue;
                          score = score + (literalChars hostPattern + literalChars ownerPattern)
                      in (True, score)))"

text \<open>The loop of \<^verbatim>\<open>Match\<close> over the rules, with the index \<open>i\<close> of the rule at the head
  of the list and the best candidate so far (\<^verbatim>\<open>nil\<close> is \<open>None\<close>).\<close>

fun Match_rules ::
  "Unicode \<Rightarrow> Rule list \<Rightarrow> ParsedRemote \<Rightarrow> nat \<Rightarrow> MatchResult option \<Rightarrow> MatchResult option" where
  "Match_rules U [] remote i best = best"
| "Match_rules U (r # rs) remote i best =
     (case matchRule U r remote of
        (ok, score) \<Rightarrow>
          if \<not> ok then Match_rules U rs remote (i + 1) best
          else
            let candidate = \<lparr>Rule = r, Score = score, Index = i\<rparr>
            in (case best of
                  None \<Rightarrow> Match_rules U rs remote (i + 1) (Some candidate)
                | Some b \<Rightarrow>
                    if Score b <s Score candidate
                    then Match_rules U rs remote (i + 1) (Some candidate)
                    else Match_rules U rs remote (i + 1) best))"

definition Match :: "Unicode \<Rightarrow> Rule list \<Rightarrow> ParsedRemote option \<Rightarrow> error + MatchResult" where
  "Match U rules remote =
     (case remote of
        None \<Rightarrow> Inl NilRemote
      | Some rm \<Rightarrow>
          if ParsedRemote.Host rm = [] then Inl EmptyHost
          else
            (case Match_rules U rules rm 0 None of
               None \<Rightarrow> Inl (NoRuleMatched (ParsedRemote.Host rm) (ParsedRemote.Owner rm))
             | Some best \<Rightarrow> Inr best))"

section \<open>Expanding a key path\<close>

text \<open>
  \<^verbatim>\<open>config.ExpandPath\<close> asks the operating system for the home directory, the
  environment and the working directory. The record \<open>OS\<close> holds what these calls return;
  it is a parameter of \<open>ExpandPath\<close>. \<^verbatim>\<open>filepath.IsAbs\<close>, \<^verbatim>\<open>filepath.Join\<close> and
  \<^verbatim>\<open>filepath.Abs\<close> are those of Go's library on Unix.
\<close>

record OS =
  UserHomeDir :: "error + string"
  ExpandEnv :: "string \<Rightarrow> string"
  Getwd :: "error + string"

definition filepath_IsAbs :: "string \<Rightarrow> bool" where
  "filepath_IsAbs path = HasPrefix path ''/''"

fun filepath_Join :: "string list \<Rightarrow> string" where
  "filepath_Join [] = []"
| "filepath_Join (e # es) = (if e \<noteq> [] then Clean (Join (e # es) ''/'') else filepath_Join es)"

definition filepath_Abs :: "OS \<Rightarrow> string \<Rightarrow> error + string" where
  "filepath_Abs os path =
     (if filepath_IsAbs path then Inr (Clean path)
      else (case Getwd os of
              Inl err \<Rightarrow> Inl err
            | Inr wd \<Rightarrow> Inr (filepath_Join [wd, path])))"

definition ExpandPath :: "OS \<Rightarrow> string \<Rightarrow> error + string" where
  "ExpandPath os p =
     (let s = TrimSpace p
      in if s = [] then Inl EmptyPath
         else
           (case (if HasPrefix s ''~'' then
                    (case UserHomeDir os of
                       Inl err \<Rightarrow> Inl (HomeDirFailed err)
                     | Inr home \<Rightarrow>
                         Inr (if s = ''~'' then home
                              else if HasPrefix s ''~/'' then filepath_Join [home, drop 2 s]
                              else s))
                  else Inr s) of
              Inl err \<Rightarrow> Inl err
            | Inr s \<Rightarrow>
                let s = ExpandEnv os s
                in if \<not> filepath_IsAbs s then
                     (case filepath_Abs os s of
                        Inl err \<Rightarrow> Inl (AbsPathFailed err)
                      | Inr absPath \<Rightarrow> Inr (Clean absPath))
                   else Inr (Clean s)))"

section \<open>Resolving a remote to a key\<close>

definition shellQuote :: "string \<Rightarrow> string" where
  "shellQuote s =
     (if s = [] then [CHR 0x27, CHR 0x27]
      else [CHR 0x27] @ ReplaceAll s (CHR 0x27) [CHR 0x27, CHR 0x22, CHR 0x27, CHR 0x22, CHR 0x27]
           @ [CHR 0x27])"

definition BuildGITSSHCommand :: "string \<Rightarrow> string" where
  "BuildGITSSHCommand keyPath =
     ''ssh -F /dev/null -i '' @ shellQuote keyPath @ '' -o IdentitiesOnly=yes''"

record Result =
  URL :: string
  Parsed :: "ParsedRemote option"
  SSHSelectionApplies :: bool
  MatchedRule :: "Rule option"
  KeyPath :: string
  GITSSHCommand :: string
  MatchScore :: "64 word"
  Notes :: "string list"

definition AddRuleHint :: "ParsedRemote option \<Rightarrow> string" where
  "AddRuleHint parsed =
     (case parsed of
        None \<Rightarrow> ''Add a rule with: mgit rule add --host <host> --owner <owner> --key ~/.ssh/<key>''
      | Some p \<Rightarrow>
          ''Add a rule with: mgit rule add --host '' @ ParsedRemote.Host p @ '' --owner ''
            @ ParsedRemote.Owner p @ '' --key ~/.ssh/<key>'')"

text \<open>The text \<^verbatim>\<open>%q\<close> prints for a transport: its name in double quotes (the three
  names need no escaping).\<close>

definition TransportName :: "Transport \<Rightarrow> string" where
  "TransportName t =
     (case t of TransportSSH \<Rightarrow> ''ssh'' | TransportHTTPS \<Rightarrow> ''https'' | TransportOther \<Rightarrow> ''other'')"

definition FromURL ::
  "OS \<Rightarrow> Unicode \<Rightarrow> (string \<Rightarrow> error + GoURL) \<Rightarrow> Config option \<Rightarrow> string
     \<Rightarrow> error + Result" where
  "FromURL os U url_Parse cfg rawURL =
     (case Parse U url_Parse rawURL of
        Inl err \<Rightarrow> Inl err
      | Inr parsed \<Rightarrow>
          let res = \<lparr>URL = rawURL, Parsed = Some parsed, SSHSelectionApplies = False,
                      MatchedRule = None, KeyPath = [], GITSSHCommand = [], MatchScore = 0,
                      Notes = []\<rparr>
          in if \<not> IsSSH parsed then
               (if IsHTTPS parsed then
                  Inr (res\<lparr>SSHSelectionApplies := False,
                            Notes := Notes res @
                              [''HTTPS remote detected: SSH key selection is not applied'']\<rparr>)
                else
                  Inr (res\<lparr>SSHSelectionApplies := False,
                            Notes := Notes res @
                              [''transport '' @ [CHR 0x22] @ TransportName (Transport parsed)
                                 @ [CHR 0x22] @ '' is not SSH: SSH key selection is not applied'']\<rparr>))
             else
               (case cfg of
                  None \<Rightarrow> Inl MissingConfig
                | Some c \<Rightarrow>
                    (case Match U (Rules c) (Some parsed) of
                       Inl err \<Rightarrow> Inl (MatchFailedWithHint err (AddRuleHint (Some parsed)))
                     | Inr match \<Rightarrow>
                         (case ExpandPath os (Key (Rule match)) of
                            Inl err \<Rightarrow> Inl (ExpandKeyFailed (ID (Rule match)) err)
                          | Inr keyPath \<Rightarrow>
                              Inr (res\<lparr>SSHSelectionApplies := True,
                                        MatchedRule := Some (Rule match),
                                        MatchScore := Score match,
                                        KeyPath := keyPath,
                                        GITSSHCommand := BuildGITSSHCommand keyPath\<rparr>)))))"

section \<open>Inferring the target of a git command line\<close>

datatype TargetKind = TargetNone | TargetRemote | TargetURL

record GitTarget =
  Kind :: TargetKind
  Command :: string
  RemoteName :: string
  URL :: string
  Notes :: string
  SkipSSHSelection :: bool

text \<open>The zero value of the struct: every field not named in a composite literal.\<close>

definition GitTarget0 :: GitTarget where
  "GitTarget0 = \<lparr>Kind = TargetNone, Command = [], RemoteName = [], URL = [],
                  Notes = [], SkipSSHSelection = False\<rparr>"

definition takesValue :: "string \<Rightarrow> bool" where
  "takesValue flag =
     (if Contains flag ''='' then False
      else if flag = ''-c'' \<or> flag = ''--config'' \<or> flag = ''-C''
              \<or> flag = ''--upload-pack'' \<or> flag = ''--receive-pack'' \<or> flag = ''-o''
           then True
      else False)"

text \<open>
  The loop of \<^verbatim>\<open>positionalArgs\<close>, with its index \<open>i\<close> and its output slice \<open>out\<close>;
  \<^verbatim>\<open>continue\<close> runs the increment of the \<^verbatim>\<open>for\<close> statement.
\<close>

function positionalArgs_loop :: "string list \<Rightarrow> nat \<Rightarrow> string list \<Rightarrow> string list" where
  "positionalArgs_loop args i out =
     (if i < length args then
        (let a = args ! i in
         if a = ''--'' then out @ drop (i + 1) args
         else if a = [] then positionalArgs_loop args (i + 1) out
         else if HasPrefix a ''-'' then
           (if takesValue a \<and> i + 1 < length args
            then positionalArgs_loop args (i + 1 + 1) out
            else positionalArgs_loop args (i + 1) out)
         else positionalArgs_loop args (i + 1) (out @ [a]))
      else out)"
  by pat_completeness auto
termination
  by (relation "measure (\<lambda>(args, i, out). length args - i)") auto

declare positionalArgs_loop.simps [simp del]

definition positionalArgs :: "string list \<Rightarrow> string list" where
  "positionalArgs args = positionalArgs_loop args 0 []"

text \<open>The same scan as a recursion on the argument list; \<open>positionalArgs_loop_scanArgs\<close>
  below shows that the loop computes it.\<close>

fun scanArgs :: "string list \<Rightarrow> string list" where
  "scanArgs [] = []"
| "scanArgs (a # rest) =
     (if a = ''--'' then rest
      else if a = [] then scanArgs rest
      else if HasPrefix a ''-'' then
        (if takesValue a \<and> rest \<noteq> [] then scanArgs (tl rest) else scanArgs rest)
      else a # scanArgs rest)"

text \<open>
  \<^verbatim>\<open>InferGitTarget\<close> returns a pair in Go: the target and an error, which is
  \<^verbatim>\<open>nil\<close> (here \<open>None\<close>) on every path but one.
\<close>

definition InferGitTarget :: "string list \<Rightarrow> GitTarget \<times> error option" where
  "InferGitTarget args =
     (if length args = 0 then (GitTarget0, None)
      else
        let cmd = hd args in
        if cmd = ''push'' \<or> cmd = ''fetch'' \<or> cmd = ''pull'' then
          (let pos = positionalArgs (tl args) in
           if length pos = 0 then
             (GitTarget0\<lparr>Command := cmd, Notes := ''remote not specified explicitly''\<rparr>, None)
           else if IsLikelyRemoteURL (hd pos) then
             (GitTarget0\<lparr>Kind := TargetURL, Command := cmd, URL := hd pos\<rparr>, None)
           else (GitTarget0\<lparr>Kind := TargetRemote, Command := cmd, RemoteName := hd pos\<rparr>, None))
        else if cmd = ''clone'' then
          (let pos = positionalArgs (tl args) in
           if length pos = 0 then
             (GitTarget0\<lparr>Command := cmd\<rparr>, Some MissingCloneTarget)
           else (GitTarget0\<lparr>Kind := TargetURL, Command := cmd, URL := hd pos\<rparr>, None))
        else if cmd = ''ls-remote'' then
          (let pos = positionalArgs (tl args) in
           if length pos = 0 then
             (GitTarget0\<lparr>Command := cmd, Notes := ''no repository argument''\<rparr>, None)
           else if IsLikelyRemoteURL (hd pos) then
             (GitTarget0\<lparr>Kind := TargetURL, Command := cmd, URL := hd pos\<rparr>, None)
           else (GitTarget0\<lparr>Kind := TargetRemote, Command := cmd, RemoteName := hd pos\<rparr>, None))
        else if cmd = ''remote'' \<and> length args \<ge> 2 \<and> args ! 1 = ''set-url''
                \<and> length (positionalArgs (drop 2 args)) \<ge> 2
                \<and> IsLikelyRemoteURL (positionalArgs (drop 2 args) ! 1) then
          (GitTarget0\<lparr>Kind := TargetURL, Command := ''remote set-url'',
                       URL := positionalArgs (drop 2 args) ! 1,
                       Notes := ''local config update; SSH key selection not required'',
                       SkipSSHSelection := True\<rparr>, None)
        else (GitTarget0\<lparr>Command := cmd\<rparr>, None))"


section \<open>Vocabulary of the properties\<close>

text \<open>
  What \<^verbatim>\<open>url.Parse\<close> returns on the two URLs of the repository's parser tests
  (\<^verbatim>\<open>parse_test.go\<close> checks host, owner and repository of both). It stands in for the
  library parser where a property is evaluated on a concrete URL; the theorems
  themselves hold for every parser.
\<close>

definition example_url_Parse :: "string \<Rightarrow> error + GoURL" where
  "example_url_Parse raw =
     (if raw = ''ssh://git@gitlab.com/Group/subgroup/repo.git'' then
        Inr \<lparr>urlScheme = ''ssh'', urlUsername = Some ''git'', urlHostname = ''gitlab.com'',
             urlPort = [], urlPath = ''/Group/subgroup/repo.git''\<rparr>
      else if raw = ''https://github.com/CompanyOrg/project.git'' then
        Inr \<lparr>urlScheme = ''https'', urlUsername = None, urlHostname = ''github.com'',
             urlPort = [], urlPath = ''/CompanyOrg/project.git''\<rparr>
      else Inl (External ''not tabulated''))"

text \<open>
  A fragment of the case tables of Unicode, enough for the letters of the examples:
  the capital \<^verbatim>\<open>U+00C9\<close> has the small letter \<^verbatim>\<open>U+00E9\<close>, and the two fold to each
  other. The examples below are ASCII text but for these two letters.
\<close>

definition example_Unicode :: Unicode where
  "example_Unicode =
     \<lparr>To_LowerCase = (\<lambda>r. if r = 0xC9 then 0xE9 else r),
      SimpleFold_reaches = (\<lambda>sr tr. sr = 0xC9 \<and> tr = 0xE9)\<rparr>"

text \<open>The non-empty pieces of a path between its slashes.\<close>

definition pathSegments :: "string \<Rightarrow> string list" where
  "pathSegments p = filter (\<lambda>s. s \<noteq> []) (Split p (CHR ''/''))"

text \<open>The two patterns of a rule as \<open>matchRule\<close> normalises them, the candidates of a
  remote, the score of a rule, and the number of literal characters of a pattern: its
  runes other than \<^verbatim>\<open>*\<close>, \<^verbatim>\<open>?\<close>, \<^verbatim>\<open>[\<close> and \<^verbatim>\<open>]\<close>.\<close>

definition hostPattern :: "Unicode \<Rightarrow> Rule \<Rightarrow> string" where
  "hostPattern U r = normalizePattern (ToLower U (Rule.Host r))"

definition ownerPattern :: "Unicode \<Rightarrow> Rule \<Rightarrow> string" where
  "ownerPattern U r = normalizePattern (ToLower U (Rule.Owner r))"

definition candidate :: "Unicode \<Rightarrow> Rule \<Rightarrow> ParsedRemote \<Rightarrow> bool" where
  "candidate U r remote =
     (filepath_Match (hostPattern U r) (ToLower U (ParsedRemote.Host remote)) = Inr True
      \<and> filepath_Match (ownerPattern U r) (ToLower U (ParsedRemote.Owner remote)) = Inr True)"

definition ruleScore :: "Unicode \<Rightarrow> Rule \<Rightarrow> ParsedRemote \<Rightarrow> 64 word" where
  "ruleScore U r remote =
     Priority r * 1000
     + specificityScore U (hostPattern U r) (ToLower U (ParsedRemote.Host remote))
     + specificityScore U (ownerPattern U r) (ToLower U (ParsedRemote.Owner remote))
     + (literalChars (hostPattern U r) + literalChars (ownerPattern U r))"

definition isLiteral :: "int \<Rightarrow> bool" where
  "isLiteral r = (r \<noteq> of_char (CHR ''*'') \<and> r \<noteq> of_char (CHR ''?'')
                  \<and> r \<noteq> of_char (CHR ''['') \<and> r \<noteq> of_char (CHR '']''))"

definition literalCount :: "string \<Rightarrow> nat" where
  "literalCount pattern = length (filter isLiteral (runes pattern))"

text \<open>The rule at the head of the loop: whether it is a candidate, and its score.\<close>

definition cand :: "Unicode \<Rightarrow> ParsedRemote \<Rightarrow> Rule \<Rightarrow> bool" where
  "cand U remote r = fst (matchRule U r remote)"

definition sc :: "Unicode \<Rightarrow> ParsedRemote \<Rightarrow> Rule \<Rightarrow> 64 word" where
  "sc U remote r = snd (matchRule U r remote)"

text \<open>The remote \<^verbatim>\<open>git@github.com:CompanyOrg/proj.git\<close> as parsed, and the two rules of the
  matcher's test.\<close>

definition remote_CompanyOrg :: ParsedRemote where
  "remote_CompanyOrg =
     \<lparr>Original = ''git@github.com:CompanyOrg/proj.git'', Transport = TransportSSH,
      Scheme = ''ssh'', User = ''git'', Host = ''github.com'', Port = [],
      Owner = ''CompanyOrg'', Repo = ''proj'', RawPath = ''CompanyOrg/proj.git'',
      IsRemoteURL = True\<rparr>"

definition rule_wild :: Rule where
  "rule_wild = \<lparr>ID = ''wild'', Host = ''github.com'', Owner = ''*'', Key = ''/k/default'',
                 Priority = 0\<rparr>"

definition rule_spec :: Rule where
  "rule_spec = \<lparr>ID = ''spec'', Host = ''github.com'', Owner = ''CompanyOrg'', Key = ''/k/work'',
                 Priority = 0\<rparr>"

text \<open>A remote whose host is \<^verbatim>\<open>U+00E9\<close> followed by \<^verbatim>\<open>x\<close>, and two rules for it: the host
  pattern of the first is \<^verbatim>\<open>*x\<close>, that of the second the capital \<^verbatim>\<open>U+00C9\<close> followed
  by \<^verbatim>\<open>*\<close>.\<close>

definition remote_accent :: ParsedRemote where
  "remote_accent =
     \<lparr>Original = [CHR 0xC3, CHR 0xA9] @ ''x:o/r'', Transport = TransportSSH,
      Scheme = ''ssh'', User = [], Host = [CHR 0xC3, CHR 0xA9] @ ''x'', Port = [],
      Owner = ''o'', Repo = ''r'', RawPath = ''o/r'', IsRemoteURL = True\<rparr>"

definition rule_suffix_x :: Rule where
  "rule_suffix_x = \<lparr>ID = ''suffix'', Host = ''*x'', Owner = ''*'', Key = ''/k/suffix'',
                     Priority = 0\<rparr>"

definition rule_accent :: Rule where
  "rule_accent = \<lparr>ID = ''accent'', Host = [CHR 0xC3, CHR 0x89] @ ''*'', Owner = ''*'',
                   Key = ''/k/accent'', Priority = 0\<rparr>"

text \<open>The normalisation of a pattern in the words of the specification: lower case, the
  empty pattern becoming \<^verbatim>\<open>*\<close>.\<close>

definition claimedPattern :: "Unicode \<Rightarrow> string \<Rightarrow> string" where
  "claimedPattern U s = (if ToLower U s = [] then ''*'' else ToLower U s)"

text \<open>A catch-all rule with priority 1, and one whose priority times 1000 is more than
  a 64-bit integer holds; a remote whose ownership path is 200 letters long, and the
  rule that names it literally.\<close>

definition rule_forced :: Rule where
  "rule_forced = \<lparr>ID = ''forced'', Host = ''*'', Owner = ''*'', Key = ''/k/forced'',
                   Priority = 1\<rparr>"

definition rule_huge :: Rule where
  "rule_huge = \<lparr>ID = ''huge'', Host = ''*'', Owner = ''*'', Key = ''/k/huge'',
                 Priority = 9223372036854776\<rparr>"

definition remote_long :: ParsedRemote where
  "remote_long =
     \<lparr>Original = ''git@h:'' @ replicate 200 (CHR ''a'') @ ''/r'', Transport = TransportSSH,
      Scheme = ''ssh'', User = ''git'', Host = ''h'', Port = [],
      Owner = replicate 200 (CHR ''a''), Repo = ''r'',
      RawPath = replicate 200 (CHR ''a'') @ ''/r'', IsRemoteURL = True\<rparr>"

definition rule_literal_long :: Rule where
  "rule_literal_long = \<lparr>ID = ''literal'', Host = ''h'', Owner = replicate 200 (CHR ''a''),
                         Key = ''/k/literal'', Priority = 0\<rparr>"

text \<open>
  How a POSIX shell splits a command line into words, for command lines made of plain
  characters, blanks, single quotes and double quotes: blanks separate words outside
  quotes; between single quotes every character stands for itself; between double
  quotes every character but \<^verbatim>\<open>$\<close>, the back quote and the backslash stands for itself.
  A command line with an unquoted operator or expansion character, or with an open
  quote at its end, is outside this fragment (\<open>None\<close>). The second argument is the
  word being read, if one has started.
\<close>

datatype quoting = Unquoted | SingleQuoted | DoubleQuoted

fun shellWords :: "quoting \<Rightarrow> string option \<Rightarrow> string \<Rightarrow> string list option" where
  "shellWords Unquoted w [] = Some (case w of None \<Rightarrow> [] | Some x \<Rightarrow> [x])"
| "shellWords SingleQuoted w [] = None"
| "shellWords DoubleQuoted w [] = None"
| "shellWords Unquoted w (c # cs) =
     (if c = CHR '' '' \<or> c = CHR 0x09 \<or> c = CHR 0x0A then
        (case w of
           None \<Rightarrow> shellWords Unquoted None cs
         | Some x \<Rightarrow> map_option ((#) x) (shellWords Unquoted None cs))
      else if c = CHR 0x27 then
        shellWords SingleQuoted (Some (case w of None \<Rightarrow> [] | Some x \<Rightarrow> x)) cs
      else if c = CHR 0x22 then
        shellWords DoubleQuoted (Some (case w of None \<Rightarrow> [] | Some x \<Rightarrow> x)) cs
      else if c \<in> set ''|&;<>()$*?[#~'' \<or> c = CHR 0x60 \<or> c = CHR 0x5C then None
      else shellWords Unquoted (Some ((case w of None \<Rightarrow> [] | Some x \<Rightarrow> x) @ [c])) cs)"
| "shellWords SingleQuoted w (c # cs) =
     (if c = CHR 0x27 then shellWords Unquoted w cs
      else shellWords SingleQuoted (Some ((case w of None \<Rightarrow> [] | Some x \<Rightarrow> x) @ [c])) cs)"
| "shellWords DoubleQuoted w (c # cs) =
     (if c = CHR 0x22 then shellWords Unquoted w cs
      else if c = CHR ''$'' \<or> c = CHR 0x60 \<or> c = CHR 0x5C then None
      else shellWords DoubleQuoted (Some ((case w of None \<Rightarrow> [] | Some x \<Rightarrow> x) @ [c])) cs)"

text \<open>An operating system, a configuration whose second rule has a key with a blank
  and a single quote in its name, and the result of resolving
  \<^verbatim>\<open>git@github.com:CompanyOrg/proj.git\<close> with them; the HTTPS remote of the parser's
  test.\<close>

definition os_example :: OS where
  "os_example = \<lparr>UserHomeDir = Inr ''/home/dev'', ExpandEnv = id, Getwd = Inr ''/work''\<rparr>"

definition rule_quoted :: Rule where
  "rule_quoted = \<lparr>ID = ''bob'', Host = ''github.com'', Owner = ''CompanyOrg'',
                   Key = ''~/keys/./bob's key'', Priority = 0\<rparr>"

definition config_example :: Config where
  "config_example = \<lparr>Version = 1, Rules = [rule_wild, rule_quoted]\<rparr>"

definition result_example :: Result where
  "result_example =
     \<lparr>Result.URL = ''git@github.com:CompanyOrg/proj.git'', Parsed = Some remote_CompanyOrg,
      SSHSelectionApplies = True, MatchedRule = Some rule_quoted,
      KeyPath = ''/home/dev/keys/bob's key'',
      GITSSHCommand = ''ssh -F /dev/null -i '' @ [CHR 0x27] @ ''/home/dev/keys/bob''
        @ [CHR 0x27, CHR 0x22, CHR 0x27, CHR 0x22, CHR 0x27] @ ''s key'' @ [CHR 0x27]
        @ '' -o IdentitiesOnly=yes'',
      MatchScore = 820, Result.Notes = []\<rparr>"


section \<open>Properties of the parser\<close>

lemma Clean_nonempty: "Clean p \<noteq> []"
  by (auto simp: Clean_def Let_def)

lemma splitRepoPath_nonempty:
  "splitRepoPath raw = Inr (owner, repo, cleanPath) \<Longrightarrow> owner \<noteq> [] \<and> repo \<noteq> []"
  by (auto simp: splitRepoPath_def Let_def split: if_splits)

lemma scpHostPath_Some:
  "scpHostPath s = Some (host, path) \<Longrightarrow>
     host \<noteq> [] \<and> CHR '':'' \<notin> set host \<and> path \<noteq> [] \<and> host = takeWhile (\<lambda>c. c \<noteq> CHR '':'') s"
  by (auto simp: scpHostPath_def Let_def split: if_splits dest: set_takeWhileD)

lemma scpHostPath_no_colon: "CHR '':'' \<notin> set s \<Longrightarrow> scpHostPath s = None"
  by (simp add: scpHostPath_def Let_def)

lemma scpLikeRe_Some:
  "scpLikeRe_FindStringSubmatch s = Some (user, host, path) \<Longrightarrow>
     host \<noteq> [] \<and> CHR '':'' \<notin> set host \<and> path \<noteq> []
     \<and> (host = takeWhile (\<lambda>c. c \<noteq> CHR '':'') s
          \<or> host = takeWhile (\<lambda>c. c \<noteq> CHR '':'') (tl (dropWhile (\<lambda>c. c \<noteq> CHR ''@'') s)))"
  by (auto simp: scpLikeRe_FindStringSubmatch_def scpWithUser_def Let_def
      split: option.splits if_splits dest!: scpHostPath_Some)

lemma scpLikeRe_no_colon:
  assumes "CHR '':'' \<notin> set s"
  shows "scpLikeRe_FindStringSubmatch s = None"
proof -
  have "CHR '':'' \<notin> set (tl (dropWhile (\<lambda>c. c \<noteq> CHR ''@'') s))"
  proof
    assume a: "CHR '':'' \<in> set (tl (dropWhile (\<lambda>c. c \<noteq> CHR ''@'') s))"
    have "dropWhile (\<lambda>c. c \<noteq> CHR ''@'') s \<noteq> []"
    proof
      assume "dropWhile (\<lambda>c. c \<noteq> CHR ''@'') s = []"
      with a show False by simp
    qed
    then have "CHR '':'' \<in> set (dropWhile (\<lambda>c. c \<noteq> CHR ''@'') s)"
      using a by (rule list.set_sel(2))
    then show False using assms by (auto dest: set_dropWhileD)
  qed
  then show ?thesis
    using assms
    by (simp add: scpLikeRe_FindStringSubmatch_def scpWithUser_def Let_def scpHostPath_no_colon)
qed

lemma parseSCPLike_Inr:
  "parseSCPLike raw = Inr p \<Longrightarrow>
     Transport p = TransportSSH \<and> Scheme p = ''ssh'' \<and> ParsedRemote.Host p \<noteq> []
     \<and> CHR '':'' \<notin> set (ParsedRemote.Host p)
     \<and> ParsedRemote.Owner p \<noteq> [] \<and> Repo p \<noteq> []
     \<and> (ParsedRemote.Host p = takeWhile (\<lambda>c. c \<noteq> CHR '':'') raw
          \<or> ParsedRemote.Host p =
               takeWhile (\<lambda>c. c \<noteq> CHR '':'') (tl (dropWhile (\<lambda>c. c \<noteq> CHR ''@'') raw)))
     \<and> scpLikeRe_MatchString raw"
  by (auto simp: parseSCPLike_def scpLikeRe_MatchString_def
      split: option.splits sum.splits dest!: scpLikeRe_Some splitRepoPath_nonempty)

lemma scpLikeRe_user_host:
  "scpLikeRe_FindStringSubmatch s = Some (user, host, path) \<Longrightarrow>
     (user \<noteq> [] \<longrightarrow>
        CHR ''@'' \<in> set s \<and> user = takeWhile (\<lambda>c. c \<noteq> CHR ''@'') s
        \<and> host = takeWhile (\<lambda>c. c \<noteq> CHR '':'') (tl (dropWhile (\<lambda>c. c \<noteq> CHR ''@'') s)))
     \<and> (user = [] \<longrightarrow> host = takeWhile (\<lambda>c. c \<noteq> CHR '':'') s)"
  by (auto simp: scpLikeRe_FindStringSubmatch_def scpWithUser_def Let_def
      split: option.splits if_splits dest!: scpHostPath_Some)

lemma parseSCPLike_user_host:
  "parseSCPLike raw = Inr p \<Longrightarrow>
     (User p \<noteq> [] \<longrightarrow>
        CHR ''@'' \<in> set raw \<and> User p = takeWhile (\<lambda>c. c \<noteq> CHR ''@'') raw
        \<and> ParsedRemote.Host p =
            takeWhile (\<lambda>c. c \<noteq> CHR '':'') (tl (dropWhile (\<lambda>c. c \<noteq> CHR ''@'') raw)))
     \<and> (User p = [] \<longrightarrow> ParsedRemote.Host p = takeWhile (\<lambda>c. c \<noteq> CHR '':'') raw)"
  by (auto simp: parseSCPLike_def split: option.splits sum.splits dest!: scpLikeRe_user_host)

lemma parseURL_Inr:
  "parseURL U up raw = Inr p \<Longrightarrow>
     ParsedRemote.Host p \<noteq> [] \<and> ParsedRemote.Owner p \<noteq> [] \<and> Repo p \<noteq> []"
  by (auto simp: parseURL_def Let_def split: sum.splits if_splits option.splits
      dest!: splitRepoPath_nonempty)


lemma Split_nonempty: "Split p sep \<noteq> []"
  by (induction p) (auto split: list.splits)

lemma Split_snoc_sep: "Split (p @ [sep]) sep = Split p sep @ [[]]"
  by (induction p) (auto split: list.splits simp: Split_nonempty)

lemma pathSegments_TrimSuffix: "pathSegments (TrimSuffix p ''/'') = pathSegments p"
proof (cases "HasSuffix p ''/''")
  case True
  then have "p = take (length p - 1) p @ ''/''"
    by (auto simp: HasSuffix_def) (metis append_take_drop_id)
  then have "Split p (CHR ''/'') = Split (take (length p - 1) p) (CHR ''/'') @ [[]]"
    using Split_snoc_sep [of "take (length p - 1) p" "CHR ''/''"] by simp
  then show ?thesis using True by (simp add: pathSegments_def TrimSuffix_def)
next
  case False
  then show ?thesis by (simp add: TrimSuffix_def)
qed

lemma pathSegments_Nil: "pathSegments [] = []"
  by (simp add: pathSegments_def)

text \<open>
  Claim C5, as amended. \<open>splitRepoPath\<close> trims white space, one leading slash, a leading
  \<^verbatim>\<open>./\<close> and one trailing slash, and takes the non-empty pieces between the slashes
  (the trailing slash does not change them). It succeeds exactly when at least two
  pieces remain, the last piece with one trailing \<^verbatim>\<open>.git\<close> removed is not empty, and
  the pieces before it, joined with \<^verbatim>\<open>/\<close> and cleaned as a path (\<^verbatim>\<open>.\<close> pieces dropped,
  \<^verbatim>\<open>..\<close> resolved), give something other than \<^verbatim>\<open>.\<close>; the repository name is that last
  piece and the ownership path is that cleaned path. For the nested group URL
  \<^verbatim>\<open>ssh://git@gitlab.com/Group/subgroup/repo.git\<close> the ownership path is
  \<^verbatim>\<open>Group/subgroup\<close> and the repository name \<^verbatim>\<open>repo\<close>.
\<close>

theorem splitRepoPath_segments:
  "(let segs = pathSegments (TrimPrefix (TrimPrefix (TrimSpace rawPath) ''/'') ''./'')
    in splitRepoPath rawPath = Inr (owner, repo, cleanPath) \<longleftrightarrow>
         2 \<le> length segs
         \<and> repo = TrimSuffix (last segs) ''.git'' \<and> repo \<noteq> []
         \<and> owner = Clean (Join (butlast segs) ''/'') \<and> owner \<noteq> ''.''
         \<and> cleanPath = Join segs ''/'')
   \<and> splitRepoPath ''/Group/subgroup/repo.git'' =
         Inr (''Group/subgroup'', ''repo'', ''Group/subgroup/repo.git'')
   \<and> Parse example_Unicode example_url_Parse ''ssh://git@gitlab.com/Group/subgroup/repo.git'' =
         Inr \<lparr>Original = ''ssh://git@gitlab.com/Group/subgroup/repo.git'',
              Transport = TransportSSH, Scheme = ''ssh'', User = ''git'',
              Host = ''gitlab.com'', Port = [], Owner = ''Group/subgroup'',
              Repo = ''repo'', RawPath = ''Group/subgroup/repo.git'', IsRemoteURL = True\<rparr>"
proof -
  define p0 where "p0 = TrimPrefix (TrimPrefix (TrimSpace rawPath) ''/'') ''./''"
  have seg: "filter (\<lambda>s. s \<noteq> []) (Split (TrimSuffix p0 ''/'') (CHR ''/'')) = pathSegments p0"
    using pathSegments_TrimSuffix [of p0] by (simp add: pathSegments_def)
  have emp: "TrimSuffix p0 ''/'' = [] \<Longrightarrow> pathSegments p0 = []"
    using pathSegments_TrimSuffix [of p0] by (simp add: pathSegments_Nil)
  have main: "splitRepoPath rawPath = Inr (owner, repo, cleanPath) \<longleftrightarrow>
         2 \<le> length (pathSegments p0)
         \<and> repo = TrimSuffix (last (pathSegments p0)) ''.git'' \<and> repo \<noteq> []
         \<and> owner = Clean (Join (butlast (pathSegments p0)) ''/'') \<and> owner \<noteq> ''.''
         \<and> cleanPath = Join (pathSegments p0) ''/''"
    unfolding splitRepoPath_def Let_def p0_def [symmetric] seg stripGitSuffix_def
    using emp Clean_nonempty [of "Join (butlast (pathSegments p0)) ''/''"]
    by (cases "TrimSuffix p0 ''/'' = []") auto
  have ex1: "splitRepoPath ''/Group/subgroup/repo.git'' =
         Inr (''Group/subgroup'', ''repo'', ''Group/subgroup/repo.git'')"
    by code_simp
  have ex2: "Parse example_Unicode example_url_Parse ''ssh://git@gitlab.com/Group/subgroup/repo.git'' =
         Inr \<lparr>Original = ''ssh://git@gitlab.com/Group/subgroup/repo.git'',
              Transport = TransportSSH, Scheme = ''ssh'', User = ''git'',
              Host = ''gitlab.com'', Port = [], Owner = ''Group/subgroup'',
              Repo = ''repo'', RawPath = ''Group/subgroup/repo.git'', IsRemoteURL = True\<rparr>"
    by code_simp
  show ?thesis
    unfolding Let_def p0_def [symmetric] using main ex1 ex2 by blast
qed

theorem splitRepoPath_segments_witness:
  "pathSegments ''CompanyOrg/project.git/'' = [''CompanyOrg'', ''project.git'']
   \<and> splitRepoPath '' /CompanyOrg/project.git/'' =
         Inr (''CompanyOrg'', ''project'', ''CompanyOrg/project.git'')"
proof -
  have pre: "2 \<le> length (pathSegments (TrimPrefix (TrimPrefix (TrimSpace '' /CompanyOrg/project.git/'') ''/'') ''./''))
         \<and> ''project'' = TrimSuffix (last (pathSegments (TrimPrefix (TrimPrefix (TrimSpace '' /CompanyOrg/project.git/'') ''/'') ''./''))) ''.git''
         \<and> ''project'' \<noteq> []
         \<and> ''CompanyOrg'' = Clean (Join (butlast (pathSegments (TrimPrefix (TrimPrefix (TrimSpace '' /CompanyOrg/project.git/'') ''/'') ''./''))) ''/'')
         \<and> ''CompanyOrg'' \<noteq> ''.''
         \<and> ''CompanyOrg/project.git'' = Join (pathSegments (TrimPrefix (TrimPrefix (TrimSpace '' /CompanyOrg/project.git/'') ''/'') ''./'')) ''/''"
    by code_simp
  have segs: "pathSegments ''CompanyOrg/project.git/'' = [''CompanyOrg'', ''project.git'']"
    by code_simp
  show ?thesis
    using splitRepoPath_segments [of "'' /CompanyOrg/project.git/''" "''CompanyOrg''" "''project''"
        "''CompanyOrg/project.git''", THEN conjunct1, unfolded Let_def] pre segs
    by blast
qed

text \<open>
  Claim C5 as stated says the ownership path is the preceding segments joined with
  \<^verbatim>\<open>/\<close>. For the shorthand input \<^verbatim>\<open>git@h:a/./r.git\<close> the preceding segments are \<^verbatim>\<open>a\<close> and
  \<^verbatim>\<open>.\<close>, which join to \<^verbatim>\<open>a/.\<close>, but the parser cleans the path and returns \<^verbatim>\<open>a\<close>.
\<close>

theorem splitRepoPath_join_counterexample:
  "parseSCPLike ''git@h:a/./r.git'' =
     Inr \<lparr>Original = ''git@h:a/./r.git'', Transport = TransportSSH, Scheme = ''ssh'',
          User = ''git'', Host = ''h'', Port = [], Owner = ''a'', Repo = ''r'',
          RawPath = ''a/./r.git'', IsRemoteURL = True\<rparr>
   \<and> pathSegments ''a/./r.git'' = [''a'', ''.'', ''r.git'']
   \<and> Join (butlast [''a'', ''.'', ''r.git'']) ''/'' = ''a/.''
   \<and> ''a'' \<noteq> ''a/.''"
  by code_simp

text \<open>
  Claim C6, as amended. A shorthand parse that succeeds yields transport \<^verbatim>\<open>ssh\<close> and a
  non-empty host without a colon. If it yields a user, the input has a \<^verbatim>\<open>@\<close>, the user
  is the text before the first \<^verbatim>\<open>@\<close> (a colon may be in it) and the host is the text
  between that \<^verbatim>\<open>@\<close> and the first colon after it. If it yields no user, the host is
  the text before the first colon of the input. The host may contain \<^verbatim>\<open>/\<close>. An input
  without a colon fails with the unsupported-format error. \<open>Parse\<close> takes this path for
  every non-blank input that does not contain \<^verbatim>\<open>://\<close>.
\<close>

theorem parseSCPLike_shorthand:
  "(parseSCPLike raw = Inr p \<longrightarrow>
      Transport p = TransportSSH \<and> Scheme p = ''ssh'' \<and> ParsedRemote.Host p \<noteq> []
      \<and> CHR '':'' \<notin> set (ParsedRemote.Host p)
      \<and> (User p \<noteq> [] \<longrightarrow>
            CHR ''@'' \<in> set raw
            \<and> User p = takeWhile (\<lambda>c. c \<noteq> CHR ''@'') raw
            \<and> ParsedRemote.Host p =
                takeWhile (\<lambda>c. c \<noteq> CHR '':'') (tl (dropWhile (\<lambda>c. c \<noteq> CHR ''@'') raw)))
      \<and> (User p = [] \<longrightarrow> ParsedRemote.Host p = takeWhile (\<lambda>c. c \<noteq> CHR '':'') raw))
   \<and> (CHR '':'' \<notin> set raw \<longrightarrow> parseSCPLike raw = Inl (UnsupportedFormat raw))
   \<and> (TrimSpace input \<noteq> [] \<and> \<not> Contains (TrimSpace input) ''://'' \<longrightarrow>
         Parse U url_Parse input = parseSCPLike (TrimSpace input))"
proof -
  have a: "Transport p = TransportSSH \<and> Scheme p = ''ssh'' \<and> ParsedRemote.Host p \<noteq> []
      \<and> CHR '':'' \<notin> set (ParsedRemote.Host p)
      \<and> (User p \<noteq> [] \<longrightarrow>
            CHR ''@'' \<in> set raw
            \<and> User p = takeWhile (\<lambda>c. c \<noteq> CHR ''@'') raw
            \<and> ParsedRemote.Host p =
                takeWhile (\<lambda>c. c \<noteq> CHR '':'') (tl (dropWhile (\<lambda>c. c \<noteq> CHR ''@'') raw)))
      \<and> (User p = [] \<longrightarrow> ParsedRemote.Host p = takeWhile (\<lambda>c. c \<noteq> CHR '':'') raw)"
    if "parseSCPLike raw = Inr p"
    using parseSCPLike_Inr [OF that] parseSCPLike_user_host [OF that] by blast
  have b: "parseSCPLike raw = Inl (UnsupportedFormat raw)" if "CHR '':'' \<notin> set raw"
    using that by (simp add: parseSCPLike_def scpLikeRe_no_colon)
  have c: "Parse U url_Parse input = parseSCPLike (TrimSpace input)"
    if "TrimSpace input \<noteq> [] \<and> \<not> Contains (TrimSpace input) ''://''"
    using that by (simp add: Parse_def Let_def)
  show ?thesis using a b c by blast
qed

text \<open>The test remote; an input without a colon; and the input \<^verbatim>\<open>a:b@c:d/e\<close>, whose user
  \<^verbatim>\<open>a:b\<close> holds the first colon: its host is \<^verbatim>\<open>c\<close>, not the text \<^verbatim>\<open>a\<close> before that
  colon.\<close>

theorem parseSCPLike_shorthand_witness:
  "parseSCPLike ''git@github.com:CompanyOrg/project.git'' =
     Inr \<lparr>Original = ''git@github.com:CompanyOrg/project.git'', Transport = TransportSSH,
          Scheme = ''ssh'', User = ''git'', Host = ''github.com'', Port = [],
          Owner = ''CompanyOrg'', Repo = ''project'', RawPath = ''CompanyOrg/project.git'',
          IsRemoteURL = True\<rparr>
   \<and> CHR '':'' \<notin> set ''github.com''
   \<and> ''git'' = takeWhile (\<lambda>c. c \<noteq> CHR ''@'') ''git@github.com:CompanyOrg/project.git''
   \<and> ''github.com'' =
       takeWhile (\<lambda>c. c \<noteq> CHR '':'')
         (tl (dropWhile (\<lambda>c. c \<noteq> CHR ''@'') ''git@github.com:CompanyOrg/project.git''))
   \<and> parseSCPLike ''a:b@c:d/e'' =
       Inr \<lparr>Original = ''a:b@c:d/e'', Transport = TransportSSH, Scheme = ''ssh'',
            User = ''a:b'', Host = ''c'', Port = [], Owner = ''d'', Repo = ''e'',
            RawPath = ''d/e'', IsRemoteURL = True\<rparr>
   \<and> ''a:b'' = takeWhile (\<lambda>c. c \<noteq> CHR ''@'') ''a:b@c:d/e''
   \<and> ''c'' = takeWhile (\<lambda>c. c \<noteq> CHR '':'') (tl (dropWhile (\<lambda>c. c \<noteq> CHR ''@'') ''a:b@c:d/e''))
   \<and> ''c'' \<noteq> takeWhile (\<lambda>c. c \<noteq> CHR '':'') ''a:b@c:d/e''
   \<and> parseSCPLike ''host:o/r'' =
       Inr \<lparr>Original = ''host:o/r'', Transport = TransportSSH, Scheme = ''ssh'',
            User = [], Host = ''host'', Port = [], Owner = ''o'', Repo = ''r'',
            RawPath = ''o/r'', IsRemoteURL = True\<rparr>
   \<and> ''host'' = takeWhile (\<lambda>c. c \<noteq> CHR '':'') ''host:o/r''
   \<and> CHR '':'' \<notin> set ''github.com/project''
   \<and> parseSCPLike ''github.com/project'' = Inl (UnsupportedFormat ''github.com/project'')
   \<and> TrimSpace '' github.com/project '' \<noteq> []
   \<and> \<not> Contains (TrimSpace '' github.com/project '') ''://''
   \<and> Parse example_Unicode example_url_Parse '' github.com/project '' =
       Inl (UnsupportedFormat ''github.com/project'')"
proof -
  let ?p = "\<lparr>Original = ''git@github.com:CompanyOrg/project.git'', Transport = TransportSSH,
          Scheme = ''ssh'', User = ''git'', Host = ''github.com'', Port = [],
          Owner = ''CompanyOrg'', Repo = ''project'', RawPath = ''CompanyOrg/project.git'',
          IsRemoteURL = True\<rparr>"
  let ?q = "\<lparr>Original = ''a:b@c:d/e'', Transport = TransportSSH, Scheme = ''ssh'',
            User = ''a:b'', Host = ''c'', Port = [], Owner = ''d'', Repo = ''e'',
            RawPath = ''d/e'', IsRemoteURL = True\<rparr>"
  let ?r = "\<lparr>Original = ''host:o/r'', Transport = TransportSSH, Scheme = ''ssh'',
            User = [], Host = ''host'', Port = [], Owner = ''o'', Repo = ''r'',
            RawPath = ''o/r'', IsRemoteURL = True\<rparr>"
  have h1: "parseSCPLike ''git@github.com:CompanyOrg/project.git'' = Inr ?p"
    by code_simp
  have h2: "CHR '':'' \<notin> set ''github.com/project''" by simp
  have h3: "TrimSpace '' github.com/project '' = ''github.com/project''" by code_simp
  have h4: "\<not> Contains ''github.com/project'' ''://''" by code_simp
  have h5: "parseSCPLike ''a:b@c:d/e'' = Inr ?q" by code_simp
  have h6: "parseSCPLike ''host:o/r'' = Inr ?r" by code_simp
  have h7: "''c'' \<noteq> takeWhile (\<lambda>c. c \<noteq> CHR '':'') ''a:b@c:d/e''" by simp
  show ?thesis
    using parseSCPLike_shorthand [of "''git@github.com:CompanyOrg/project.git''" ?p
        "'' github.com/project ''" example_Unicode example_url_Parse]
      parseSCPLike_shorthand [of "''github.com/project''" ?p "'' github.com/project ''"
        example_Unicode example_url_Parse]
      parseSCPLike_shorthand [of "''a:b@c:d/e''" ?q "'' github.com/project ''"
        example_Unicode example_url_Parse]
      parseSCPLike_shorthand [of "''host:o/r''" ?r "'' github.com/project ''"
        example_Unicode example_url_Parse]
      h1 h2 h3 h4 h5 h6 h7
    by simp
qed

text \<open>
  Claim C6 as stated says a shorthand parse fails when the text before the first colon
  contains a slash. The input \<^verbatim>\<open>a/b:c/d\<close> has no \<^verbatim>\<open>://\<close>, the text before its first
  colon is \<^verbatim>\<open>a/b\<close>, and the parse succeeds with that host.
\<close>

theorem parseSCPLike_slash_counterexample:
  "\<not> Contains ''a/b:c/d'' ''://''
   \<and> CHR ''/'' \<in> set ''a/b''
   \<and> parseSCPLike ''a/b:c/d'' =
       Inr \<lparr>Original = ''a/b:c/d'', Transport = TransportSSH, Scheme = ''ssh'', User = [],
            Host = ''a/b'', Port = [], Owner = ''c'', Repo = ''d'', RawPath = ''c/d'',
            IsRemoteURL = True\<rparr>
   \<and> Parse example_Unicode example_url_Parse ''a/b:c/d'' = parseSCPLike ''a/b:c/d''"
  by code_simp

text \<open>
  Claim C10. If an input that equals its own white-space-trimmed form parses, the
  classifier \<open>IsLikelyRemoteURL\<close> accepts it. The classifier answers for every string
  (it is a total function into the truth values and has no error result): it accepts
  exactly the strings that contain \<^verbatim>\<open>://\<close> or match the shorthand pattern.
\<close>

theorem Parse_IsLikelyRemoteURL:
  "(TrimSpace input = input \<and> Parse U url_Parse input = Inr p \<longrightarrow> IsLikelyRemoteURL input)
   \<and> (IsLikelyRemoteURL s \<longleftrightarrow> Contains s ''://'' \<or> scpLikeRe_FindStringSubmatch s \<noteq> None)"
  by (auto simp: Parse_def Let_def IsLikelyRemoteURL_def scpLikeRe_MatchString_def
      split: if_splits dest: parseSCPLike_Inr)

theorem Parse_IsLikelyRemoteURL_witness:
  "TrimSpace ''git@github.com:CompanyOrg/project.git'' = ''git@github.com:CompanyOrg/project.git''
   \<and> Parse example_Unicode example_url_Parse ''git@github.com:CompanyOrg/project.git'' =
       Inr \<lparr>Original = ''git@github.com:CompanyOrg/project.git'', Transport = TransportSSH,
            Scheme = ''ssh'', User = ''git'', Host = ''github.com'', Port = [],
            Owner = ''CompanyOrg'', Repo = ''project'', RawPath = ''CompanyOrg/project.git'',
            IsRemoteURL = True\<rparr>
   \<and> IsLikelyRemoteURL ''git@github.com:CompanyOrg/project.git''"
proof -
  let ?p = "\<lparr>Original = ''git@github.com:CompanyOrg/project.git'', Transport = TransportSSH,
          Scheme = ''ssh'', User = ''git'', Host = ''github.com'', Port = [],
          Owner = ''CompanyOrg'', Repo = ''project'', RawPath = ''CompanyOrg/project.git'',
          IsRemoteURL = True\<rparr>"
  have h1: "TrimSpace ''git@github.com:CompanyOrg/project.git'' = ''git@github.com:CompanyOrg/project.git''"
    by code_simp
  have h2: "Parse example_Unicode example_url_Parse ''git@github.com:CompanyOrg/project.git'' = Inr ?p"
    by code_simp
  show ?thesis
    using Parse_IsLikelyRemoteURL [of "''git@github.com:CompanyOrg/project.git''"
        example_Unicode example_url_Parse ?p] h1 h2
    by blast
qed

section \<open>Properties of the matcher\<close>

lemma Match_rules_None:
  "Match_rules U rs remote i best = None \<longleftrightarrow>
     best = None \<and> (\<forall>r\<in>set rs. \<not> fst (matchRule U r remote))"
  by (induction rs arbitrary: i best) (auto split: prod.splits option.splits simp: Let_def)

lemma Match_rules_Some:
  "Match_rules U rs remote i best = Some m \<Longrightarrow>
     (best = Some m \<and> (\<forall>j<length rs. cand U remote (rs ! j) \<longrightarrow> sc U remote (rs ! j) \<le>s Score m))
     \<or> (\<exists>k<length rs. m = \<lparr>Rule = rs ! k, Score = sc U remote (rs ! k), Index = i + k\<rparr>
           \<and> cand U remote (rs ! k)
           \<and> (\<forall>b. best = Some b \<longrightarrow> Score b <s Score m)
           \<and> (\<forall>j<k. cand U remote (rs ! j) \<longrightarrow> sc U remote (rs ! j) <s Score m)
           \<and> (\<forall>j<length rs. cand U remote (rs ! j) \<longrightarrow> sc U remote (rs ! j) \<le>s Score m))"
proof (induction rs arbitrary: i best)
  case Nil
  then show ?case by simp
next
  case (Cons r rs)
  let ?c = "\<lparr>Rule = r, Score = sc U remote r, Index = i\<rparr>"
  show ?case
  proof (cases "cand U remote r")
    case False
    then have "Match_rules U rs remote (i + 1) best = Some m"
      using Cons.prems by (auto simp: cand_def split: prod.splits)
    from Cons.IH [OF this] show ?thesis
    proof (elim disjE conjE exE)
      assume "best = Some m" "\<forall>j<length rs. cand U remote (rs ! j) \<longrightarrow> sc U remote (rs ! j) \<le>s Score m"
      then show ?thesis using False by (auto simp: All_less_Suc2)
    next
      fix k
      assume k: "k < length rs" "m = \<lparr>Rule = rs ! k, Score = sc U remote (rs ! k), Index = i + 1 + k\<rparr>"
        "cand U remote (rs ! k)" "\<forall>b. best = Some b \<longrightarrow> Score b <s Score m"
        "\<forall>j<k. cand U remote (rs ! j) \<longrightarrow> sc U remote (rs ! j) <s Score m"
        "\<forall>j<length rs. cand U remote (rs ! j) \<longrightarrow> sc U remote (rs ! j) \<le>s Score m"
      have "Suc k < length (r # rs) \<and> m = \<lparr>Rule = (r # rs) ! Suc k, Score = sc U remote ((r # rs) ! Suc k), Index = i + Suc k\<rparr>
           \<and> cand U remote ((r # rs) ! Suc k)
           \<and> (\<forall>b. best = Some b \<longrightarrow> Score b <s Score m)
           \<and> (\<forall>j<Suc k. cand U remote ((r # rs) ! j) \<longrightarrow> sc U remote ((r # rs) ! j) <s Score m)
           \<and> (\<forall>j<length (r # rs). cand U remote ((r # rs) ! j) \<longrightarrow> sc U remote ((r # rs) ! j) \<le>s Score m)"
        using k False by (simp add: All_less_Suc2)
      then show ?thesis by blast
    qed
  next
    case True
    note cr = this
    show ?thesis
    proof (cases "best = None \<or> (\<exists>b. best = Some b \<and> Score b <s sc U remote r)")
      case True
      then have "Match_rules U rs remote (i + 1) (Some ?c) = Some m"
        using Cons.prems cr by (auto simp: cand_def sc_def Let_def split: prod.splits)
      from Cons.IH [OF this] show ?thesis
      proof (elim disjE conjE exE)
        assume a: "Some ?c = Some m" "\<forall>j<length rs. cand U remote (rs ! j) \<longrightarrow> sc U remote (rs ! j) \<le>s Score m"
        then have m: "m = ?c" by simp
        have "0 < length (r # rs) \<and> m = \<lparr>Rule = (r # rs) ! 0, Score = sc U remote ((r # rs) ! 0), Index = i + 0\<rparr>
           \<and> cand U remote ((r # rs) ! 0)
           \<and> (\<forall>b. best = Some b \<longrightarrow> Score b <s Score m)
           \<and> (\<forall>j<0. cand U remote ((r # rs) ! j) \<longrightarrow> sc U remote ((r # rs) ! j) <s Score m)
           \<and> (\<forall>j<length (r # rs). cand U remote ((r # rs) ! j) \<longrightarrow> sc U remote ((r # rs) ! j) \<le>s Score m)"
          using a(2) True cr m by (auto simp: All_less_Suc2)
        then show ?thesis by blast
      next
        fix k
        assume k: "k < length rs" "m = \<lparr>Rule = rs ! k, Score = sc U remote (rs ! k), Index = i + 1 + k\<rparr>"
          "cand U remote (rs ! k)" "\<forall>b. Some ?c = Some b \<longrightarrow> Score b <s Score m"
          "\<forall>j<k. cand U remote (rs ! j) \<longrightarrow> sc U remote (rs ! j) <s Score m"
          "\<forall>j<length rs. cand U remote (rs ! j) \<longrightarrow> sc U remote (rs ! j) \<le>s Score m"
        then have lt: "sc U remote r <s Score m" by simp
        have "\<forall>b. best = Some b \<longrightarrow> Score b <s Score m"
          using True lt by (auto intro: signed.less_trans)
        then have "Suc k < length (r # rs) \<and> m = \<lparr>Rule = (r # rs) ! Suc k, Score = sc U remote ((r # rs) ! Suc k), Index = i + Suc k\<rparr>
           \<and> cand U remote ((r # rs) ! Suc k)
           \<and> (\<forall>b. best = Some b \<longrightarrow> Score b <s Score m)
           \<and> (\<forall>j<Suc k. cand U remote ((r # rs) ! j) \<longrightarrow> sc U remote ((r # rs) ! j) <s Score m)
           \<and> (\<forall>j<length (r # rs). cand U remote ((r # rs) ! j) \<longrightarrow> sc U remote ((r # rs) ! j) \<le>s Score m)"
          using k lt by (simp add: All_less_Suc2 signed.less_imp_le)
        then show ?thesis by blast
      qed
    next
      case False
      then obtain b where b: "best = Some b" "\<not> Score b <s sc U remote r" by auto
      then have "Match_rules U rs remote (i + 1) best = Some m"
        using Cons.prems cr by (auto simp: cand_def sc_def Let_def split: prod.splits)
      from Cons.IH [OF this] show ?thesis
      proof (elim disjE conjE exE)
        assume a: "best = Some m" "\<forall>j<length rs. cand U remote (rs ! j) \<longrightarrow> sc U remote (rs ! j) \<le>s Score m"
        then have "sc U remote r \<le>s Score m" using b by (simp add: signed.not_less)
        then show ?thesis using a by (auto simp: All_less_Suc2)
      next
        fix k
        assume k: "k < length rs" "m = \<lparr>Rule = rs ! k, Score = sc U remote (rs ! k), Index = i + 1 + k\<rparr>"
          "cand U remote (rs ! k)" "\<forall>b. best = Some b \<longrightarrow> Score b <s Score m"
          "\<forall>j<k. cand U remote (rs ! j) \<longrightarrow> sc U remote (rs ! j) <s Score m"
          "\<forall>j<length rs. cand U remote (rs ! j) \<longrightarrow> sc U remote (rs ! j) \<le>s Score m"
        have "sc U remote r \<le>s Score b" using b by (simp add: signed.not_less)
        moreover have "Score b <s Score m" using k(4) b by simp
        ultimately have lt: "sc U remote r <s Score m" by (rule signed.le_less_trans)
        have "Suc k < length (r # rs) \<and> m = \<lparr>Rule = (r # rs) ! Suc k, Score = sc U remote ((r # rs) ! Suc k), Index = i + Suc k\<rparr>
           \<and> cand U remote ((r # rs) ! Suc k)
           \<and> (\<forall>b. best = Some b \<longrightarrow> Score b <s Score m)
           \<and> (\<forall>j<Suc k. cand U remote ((r # rs) ! j) \<longrightarrow> sc U remote ((r # rs) ! j) <s Score m)
           \<and> (\<forall>j<length (r # rs). cand U remote ((r # rs) ! j) \<longrightarrow> sc U remote ((r # rs) ! j) \<le>s Score m)"
          using k lt by (simp add: All_less_Suc2 signed.less_imp_le)
        then show ?thesis by blast
      qed
    qed
  qed
qed


lemma matchRule_candidate:
  "matchRule U r remote = (candidate U r remote, if candidate U r remote then ruleScore U r remote else 0)"
  by (auto simp: matchRule_def candidate_def ruleScore_def hostPattern_def ownerPattern_def Let_def
      split: sum.splits)

lemma cand_candidate: "cand U remote r = candidate U r remote"
  by (simp add: cand_def matchRule_candidate)

lemma sc_ruleScore: "candidate U r remote \<Longrightarrow> sc U remote r = ruleScore U r remote"
  by (simp add: sc_def matchRule_candidate)

lemma Match_Inr:
  assumes "Match U rules (Some remote) = Inr m"
  shows "Index m < length rules \<and> Rule m = rules ! Index m \<and> candidate U (Rule m) remote
     \<and> Score m = ruleScore U (Rule m) remote
     \<and> (\<forall>j<length rules. candidate U (rules ! j) remote \<longrightarrow> ruleScore U (rules ! j) remote \<le>s Score m)
     \<and> (\<forall>j<Index m. candidate U (rules ! j) remote \<longrightarrow> ruleScore U (rules ! j) remote <s Score m)"
proof -
  have "Match_rules U rules remote 0 None = Some m"
    using assms by (auto simp: Match_def split: if_splits option.splits)
  from Match_rules_Some [OF this]
  obtain k where k: "k < length rules"
    "m = \<lparr>Rule = rules ! k, Score = sc U remote (rules ! k), Index = 0 + k\<rparr>"
    "cand U remote (rules ! k)"
    "\<forall>j<k. cand U remote (rules ! j) \<longrightarrow> sc U remote (rules ! j) <s Score m"
    "\<forall>j<length rules. cand U remote (rules ! j) \<longrightarrow> sc U remote (rules ! j) \<le>s Score m"
    by auto
  then show ?thesis by (simp add: cand_candidate sc_ruleScore)
qed

lemma Match_Inl:
  "ParsedRemote.Host remote \<noteq> [] \<Longrightarrow>
     (Match U rules (Some remote) = Inl e) =
       (e = NoRuleMatched (ParsedRemote.Host remote) (ParsedRemote.Owner remote)
        \<and> (\<forall>x\<in>set rules. \<not> candidate U x remote))"
  using Match_rules_None [of U rules remote 0 None]
  by (auto simp: Match_def cand_candidate [unfolded cand_def] split: option.splits)

lemma literalChars_loop_count:
  "literalChars_loop rs n = n + of_nat (length (filter isLiteral rs))"
  by (induction rs arbitrary: n) (auto simp: isLiteral_def)

lemma literalChars_count: "literalChars p = of_nat (literalCount p)"
  by (simp add: literalChars_def literalCount_def literalChars_loop_count)

lemma hasWildcard_iff:
  "hasWildcard p \<longleftrightarrow> (\<exists>c\<in>set p. c = CHR ''*'' \<or> c = CHR ''?'' \<or> c = CHR ''['')"
  by (auto simp: hasWildcard_def ContainsAny_def list_ex_iff)

lemma DecodeRuneInString_ascii:
  "(of_char c :: int) < 0x80 \<Longrightarrow> DecodeRuneInString (c # cs) = (of_char c, 1)"
  by (simp add: DecodeRuneInString_def)

lemma of_char_toLowerChar:
  assumes "(of_char c :: int) < 0x80"
  shows "(of_char (toLowerChar c) :: int) =
     (if 0x41 \<le> (of_char c :: int) \<and> (of_char c :: int) \<le> 0x5A then of_char c + 0x20
      else of_char c)"
  using assms by (simp add: toLowerChar_def isUpper_def)

lemma foldEq_ascii:
  assumes "(of_char c :: int) < 0x80" "(of_char d :: int) < 0x80"
  shows "foldEq U (of_char c) (of_char d) \<longleftrightarrow> toLowerChar c = toLowerChar d"
proof -
  have "toLowerChar c = toLowerChar d
    \<longleftrightarrow> (of_char (toLowerChar c) :: int) = of_char (toLowerChar d)"
    by simp
  also have "\<dots> \<longleftrightarrow> foldEq U (of_char c) (of_char d)"
    unfolding of_char_toLowerChar [OF assms(1)] of_char_toLowerChar [OF assms(2)]
    using assms by (auto simp: foldEq_def Let_def min_def max_def)
  finally show ?thesis by simp
qed

lemma ToLower_ascii:
  assumes "list_all (\<lambda>c. (of_char c :: int) < 0x80) s"
  shows "ToLower U s = map toLowerChar s"
proof -
  have "\<not> list_ex isUpper s \<Longrightarrow> map toLowerChar s = s"
    by (induction s) (auto simp: toLowerChar_def)
  then show ?thesis using assms by (auto simp: ToLower_def)
qed

lemma EqualFold_ascii_map:
  "list_all (\<lambda>c. (of_char c :: int) < 0x80) s \<Longrightarrow>
   list_all (\<lambda>c. (of_char c :: int) < 0x80) t \<Longrightarrow>
   EqualFold U s t \<longleftrightarrow> map toLowerChar s = map toLowerChar t"
proof (induction s arbitrary: t)
  case Nil
  then show ?case by (auto simp: EqualFold.simps [of U "[]"])
next
  case (Cons c cs)
  show ?case
  proof (cases t)
    case Nil
    then show ?thesis by (auto simp: EqualFold.simps [of U "c # cs"])
  next
    case t: (Cons d ds)
    have a: "(of_char c :: int) < 0x80" "(of_char d :: int) < 0x80"
      using Cons.prems t by simp_all
    have "EqualFold U (c # cs) (d # ds)
      \<longleftrightarrow> foldEq U (of_char c) (of_char d) \<and> EqualFold U cs ds"
      by (simp add: EqualFold.simps [of U "c # cs"] DecodeRuneInString_ascii a)
    also have "\<dots> \<longleftrightarrow> toLowerChar c = toLowerChar d \<and> map toLowerChar cs = map toLowerChar ds"
      using Cons.IH [of ds] Cons.prems t foldEq_ascii [OF a] by simp
    finally show ?thesis using t by simp
  qed
qed

lemma EqualFold_ascii:
  assumes "list_all (\<lambda>c. (of_char c :: int) < 0x80) s"
    and "list_all (\<lambda>c. (of_char c :: int) < 0x80) t"
  shows "EqualFold U s t \<longleftrightarrow> ToLower U s = ToLower U t"
  using EqualFold_ascii_map [OF assms] ToLower_ascii [OF assms(1)] ToLower_ascii [OF assms(2)]
  by simp

lemma specificityScore_cases:
  "specificityScore U p v =
     (if p = ''*'' then 0
      else if \<not> hasWildcard p then (if EqualFold U p v then 400 else 300)
      else 100)"
  by (simp add: specificityScore_def)

lemma sint_specificityScore:
  "0 \<le> sint (specificityScore U p v) \<and> sint (specificityScore U p v) \<le> 400"
  by (simp add: specificityScore_def)

lemma sint_literalChars:
  assumes "literalCount p < 2 ^ 34"
  shows "sint (literalChars p) = int (literalCount p)"
proof -
  have "int (literalCount p) < 2 ^ 34" using assms by simp
  then have "int (literalCount p) < 2 ^ 63" by simp
  moreover have "- (2 ^ 63) \<le> int (literalCount p)" by simp
  ultimately have "signed_take_bit 63 (int (literalCount p)) = int (literalCount p)"
    by (rule signed_take_bit_int_eq_self [rotated])
  moreover have "(word_of_nat (literalCount p) :: 64 word) = word_of_int (int (literalCount p))"
    by simp
  ultimately show ?thesis
    by (simp only: literalChars_count sint_sbintrunc') simp
qed

lemma length_runes: "length (runes s) \<le> length s"
proof (induction s rule: runes.induct)
  case (1 s)
  show ?case
  proof (cases "s = []")
    case True
    then show ?thesis by (simp add: runes.simps [of "[]"])
  next
    case False
    have w: "1 \<le> snd (DecodeRuneInString s)" "snd (DecodeRuneInString s) \<le> length s"
      using False DecodeRuneInString_width by blast+
    have "length (runes (drop (snd (DecodeRuneInString s)) s))
            \<le> length s - snd (DecodeRuneInString s)"
      using "1.IH" [OF False] by simp
    then show ?thesis using w False by (simp add: runes.simps [of s])
  qed
qed

lemma length_TrimLeftSpace: "length (TrimLeftSpace s) \<le> length s"
proof (induction s rule: TrimLeftSpace.induct)
  case (1 s)
  show ?case
  proof (cases "s \<noteq> [] \<and> IsSpace (fst (DecodeRuneInString s))")
    case True
    then have "length (TrimLeftSpace (drop (snd (DecodeRuneInString s)) s))
                 \<le> length s - snd (DecodeRuneInString s)"
      using "1.IH" by simp
    then show ?thesis using True by (simp add: TrimLeftSpace.simps [of s])
  next
    case False
    then show ?thesis by (auto simp: TrimLeftSpace.simps [of s])
  qed
qed

lemma length_TrimRightSpace: "length (TrimRightSpace s) \<le> length s"
  by (simp add: TrimRightSpace_def Let_def)

lemma length_TrimSpace: "length (TrimSpace s) \<le> length s"
proof -
  define rest where "rest = dropWhile asciiSpace s"
  define kept where "kept = rev (dropWhile asciiSpace (rev rest))"
  have r: "length rest \<le> length s" by (simp add: rest_def length_dropWhile_le)
  have k: "length kept \<le> length rest"
    using length_dropWhile_le [of asciiSpace "rev rest"] by (simp add: kept_def)
  have a: "length (TrimRightSpace (TrimLeftSpace rest)) \<le> length s"
    using length_TrimRightSpace [of "TrimLeftSpace rest"] length_TrimLeftSpace [of rest] r
    by linarith
  have b: "length (TrimRightSpace kept) \<le> length s"
    using length_TrimRightSpace [of kept] k r by linarith
  have c: "length kept \<le> length s" using k r by linarith
  show ?thesis
    unfolding TrimSpace_def Let_def rest_def [symmetric] kept_def [symmetric]
    using a b c by simp
qed

lemma length_WriteMapped: "length (WriteMapped r) \<le> 4"
  by (simp add: WriteMapped_def EncodeRune_def)

lemma length_Map_rest: "length (Map_rest U s) \<le> 4 * length s"
proof (induction U s rule: Map_rest.induct)
  case (1 U s)
  show ?case
  proof (cases "s = []")
    case True
    then show ?thesis by (simp add: Map_rest.simps [of U "[]"])
  next
    case False
    have w: "1 \<le> snd (DecodeRuneInString s)" "snd (DecodeRuneInString s) \<le> length s"
      using False DecodeRuneInString_width by blast+
    have "length (Map_rest U (drop (snd (DecodeRuneInString s)) s))
            \<le> 4 * (length s - snd (DecodeRuneInString s))"
      using "1.IH" [OF False] by simp
    moreover have "length (WriteMapped (unicode_ToLower U (fst (DecodeRuneInString s)))) \<le> 4"
      by (rule length_WriteMapped)
    ultimately show ?thesis using w False by (simp add: Map_rest.simps [of U s])
  qed
qed

lemma length_Map_ToLower: "length (Map_ToLower U s) \<le> 4 * length s"
proof (induction U s rule: Map_ToLower.induct)
  case (1 U s)
  let ?r = "fst (DecodeRuneInString s)"
  let ?w = "snd (DecodeRuneInString s)"
  show ?case
  proof (cases "s = []")
    case True
    then show ?thesis by (simp add: Map_ToLower.simps [of U "[]"])
  next
    case False
    have w: "1 \<le> ?w" "?w \<le> length s"
      using False DecodeRuneInString_width by blast+
    show ?thesis
    proof (cases "unicode_ToLower U ?r = ?r \<and> \<not> (?r = RuneError \<and> ?w = 1)")
      case True
      then have "length (Map_ToLower U (drop ?w s)) \<le> 4 * (length s - ?w)"
        using "1.IH" [OF False] by simp
      moreover have "Map_ToLower U s = take ?w s @ Map_ToLower U (drop ?w s)"
        using True False by (simp add: Map_ToLower.simps [of U s])
      ultimately show ?thesis using w by simp
    next
      case c: False
      have "length (Map_rest U (drop ?w s)) \<le> 4 * (length s - ?w)"
        using length_Map_rest [of U "drop ?w s"] by simp
      moreover have "length (WriteMapped (unicode_ToLower U ?r)) \<le> 4"
        by (rule length_WriteMapped)
      moreover have "Map_ToLower U s = WriteMapped (unicode_ToLower U ?r) @ Map_rest U (drop ?w s)"
        by (subst Map_ToLower.simps) (use c False in auto)
      ultimately show ?thesis using w by simp
    qed
  qed
qed

lemma length_ToLower: "length (ToLower U s) \<le> 4 * length s"
  using length_Map_ToLower [of U s] by (simp add: ToLower_def)

lemma literalCount_star: "literalCount ''*'' = 0"
  by code_simp

lemma literalCount_normalizePattern:
  "literalCount (normalizePattern (ToLower U s)) \<le> 4 * length s"
proof -
  have "literalCount (TrimSpace (ToLower U s)) \<le> length (runes (TrimSpace (ToLower U s)))"
    by (simp add: literalCount_def)
  also have "\<dots> \<le> length (TrimSpace (ToLower U s))" by (rule length_runes)
  also have "\<dots> \<le> length (ToLower U s)" by (rule length_TrimSpace)
  also have "\<dots> \<le> 4 * length s" by (rule length_ToLower)
  finally have "literalCount (TrimSpace (ToLower U s)) \<le> 4 * length s" .
  then show ?thesis using literalCount_star by (simp add: normalizePattern_def Let_def)
qed

lemma sint_add64:
  fixes a b :: "64 word"
  assumes "- (2 ^ 63) \<le> sint a + sint b" "sint a + sint b < 2 ^ 63"
  shows "sint (a + b) = sint a + sint b"
  using assms by (simp add: sint_word_ariths signed_take_bit_int_eq_self)

lemma sint_mult1000:
  fixes a :: "64 word"
  assumes "- (10 ^ 15) \<le> sint a" "sint a \<le> 10 ^ 15"
  shows "sint (a * 1000) = sint a * 1000"
proof -
  have "- (2 ^ 63) \<le> sint a * 1000" "sint a * 1000 < 2 ^ 63" using assms by simp_all
  then show ?thesis by (simp add: sint_word_ariths signed_take_bit_int_eq_self)
qed

text \<open>The score as an integer, when neither the priority nor the patterns are large
  enough for the 64-bit sum to wrap.\<close>

lemma sint_ruleScore:
  assumes "- (10 ^ 15) \<le> sint (Priority r)" "sint (Priority r) \<le> 10 ^ 15"
    and "literalCount (hostPattern U r) < 2 ^ 34" "literalCount (ownerPattern U r) < 2 ^ 34"
  shows "sint (ruleScore U r remote) =
     sint (Priority r) * 1000
     + sint (specificityScore U (hostPattern U r) (ToLower U (ParsedRemote.Host remote)))
     + sint (specificityScore U (ownerPattern U r) (ToLower U (ParsedRemote.Owner remote)))
     + (int (literalCount (hostPattern U r)) + int (literalCount (ownerPattern U r)))"
proof -
  let ?P = "Priority r * 1000"
  let ?sh = "specificityScore U (hostPattern U r) (ToLower U (ParsedRemote.Host remote))"
  let ?so = "specificityScore U (ownerPattern U r) (ToLower U (ParsedRemote.Owner remote))"
  let ?lh = "literalChars (hostPattern U r)"
  let ?lo = "literalChars (ownerPattern U r)"
  have p: "sint ?P = sint (Priority r) * 1000" using assms(1,2) by (rule sint_mult1000)
  have pb: "- (10 ^ 18) \<le> sint ?P" "sint ?P \<le> 10 ^ 18" using assms(1,2) p by simp_all
  have sh: "0 \<le> sint ?sh" "sint ?sh \<le> 400" using sint_specificityScore by simp_all
  have so: "0 \<le> sint ?so" "sint ?so \<le> 400" using sint_specificityScore by simp_all
  have lh: "sint ?lh = int (literalCount (hostPattern U r))" using assms(3) by (rule sint_literalChars)
  have lo: "sint ?lo = int (literalCount (ownerPattern U r))" using assms(4) by (rule sint_literalChars)
  have lhb: "0 \<le> sint ?lh" "sint ?lh < 2 ^ 34" using lh assms(3) by simp_all
  have lob: "0 \<le> sint ?lo" "sint ?lo < 2 ^ 34" using lo assms(4) by simp_all
  have l: "sint (?lh + ?lo) = sint ?lh + sint ?lo"
    using lhb lob by (intro sint_add64) simp_all
  have a1: "sint (?P + ?sh) = sint ?P + sint ?sh"
    using pb sh by (intro sint_add64) simp_all
  have a2: "sint (?P + ?sh + ?so) = sint (?P + ?sh) + sint ?so"
    using pb sh so a1 by (intro sint_add64) simp_all
  have a3: "sint (?P + ?sh + ?so + (?lh + ?lo)) = sint (?P + ?sh + ?so) + sint (?lh + ?lo)"
    using pb sh so lhb lob a1 a2 l by (intro sint_add64) simp_all
  show ?thesis
    unfolding ruleScore_def a3 a2 a1 l p lh lo by simp
qed

text \<open>
  Claim C1, as amended. For a remote with a non-empty host, \<open>matchRule\<close> makes a rule a
  candidate exactly when both its patterns, lower-cased, trimmed of surrounding white
  space and replaced by \<^verbatim>\<open>*\<close> when nothing is left, match the lower-cased host and
  ownership path. \<open>Match\<close> fails exactly when no rule is a candidate, with the error
  that carries the remote's host and ownership path (so it fails on the empty list).
  Otherwise it returns a candidate with its index and score; no candidate has a
  higher score and every candidate before it has a strictly lower one. The score is
  \<open>priority * 1000 + specificity + specificity + literal characters\<close> in 64-bit
  arithmetic, with the specificity as the claim gives it: "equal case-insensitively"
  is \<open>EqualFold\<close>, which on two ASCII strings is equality of the lower-cased strings.
  The literal characters of a pattern are its runes other than \<^verbatim>\<open>*\<close>, \<^verbatim>\<open>?\<close>, \<^verbatim>\<open>[\<close> and
  \<^verbatim>\<open>]\<close>: a letter that takes several bytes counts once.
\<close>

theorem Match_earliest_best:
  assumes "ParsedRemote.Host remote \<noteq> []"
  shows "matchRule U r remote = (candidate U r remote, if candidate U r remote then ruleScore U r remote else 0)
    \<and> (candidate U r remote \<longleftrightarrow>
          filepath_Match (normalizePattern (ToLower U (Rule.Host r)))
            (ToLower U (ParsedRemote.Host remote)) = Inr True
          \<and> filepath_Match (normalizePattern (ToLower U (Rule.Owner r)))
              (ToLower U (ParsedRemote.Owner remote)) = Inr True)
    \<and> normalizePattern s = (if TrimSpace s = [] then ''*'' else TrimSpace s)
    \<and> (Match U rules (Some remote) = Inl e \<longleftrightarrow>
          e = NoRuleMatched (ParsedRemote.Host remote) (ParsedRemote.Owner remote)
          \<and> (\<forall>x\<in>set rules. \<not> candidate U x remote))
    \<and> Match U [] (Some remote) =
          Inl (NoRuleMatched (ParsedRemote.Host remote) (ParsedRemote.Owner remote))
    \<and> (Match U rules (Some remote) = Inr m \<longrightarrow>
          Index m < length rules \<and> Rule m = rules ! Index m
          \<and> candidate U (Rule m) remote \<and> Score m = ruleScore U (Rule m) remote
          \<and> (\<forall>j<length rules. candidate U (rules ! j) remote \<longrightarrow>
                ruleScore U (rules ! j) remote \<le>s Score m)
          \<and> (\<forall>j<Index m. candidate U (rules ! j) remote \<longrightarrow>
                ruleScore U (rules ! j) remote <s Score m))
    \<and> ruleScore U r remote =
          Priority r * 1000
          + specificityScore U (normalizePattern (ToLower U (Rule.Host r)))
              (ToLower U (ParsedRemote.Host remote))
          + specificityScore U (normalizePattern (ToLower U (Rule.Owner r)))
              (ToLower U (ParsedRemote.Owner remote))
          + (literalChars (normalizePattern (ToLower U (Rule.Host r)))
             + literalChars (normalizePattern (ToLower U (Rule.Owner r))))
    \<and> specificityScore U p v =
          (if p = ''*'' then 0
           else if \<not> hasWildcard p then (if EqualFold U p v then 400 else 300)
           else 100)
    \<and> (hasWildcard p \<longleftrightarrow> (\<exists>c\<in>set p. c = CHR ''*'' \<or> c = CHR ''?'' \<or> c = CHR ''[''))
    \<and> (list_all (\<lambda>c. (of_char c :: int) < 0x80) p
        \<and> list_all (\<lambda>c. (of_char c :: int) < 0x80) v \<longrightarrow>
          (EqualFold U p v \<longleftrightarrow> ToLower U p = ToLower U v))
    \<and> literalChars p =
          of_nat (length (filter (\<lambda>r. r \<noteq> of_char (CHR ''*'') \<and> r \<noteq> of_char (CHR ''?'')
                                        \<and> r \<noteq> of_char (CHR ''['') \<and> r \<noteq> of_char (CHR '']''))
                           (runes p)))"
proof -
  have c1: "matchRule U r remote = (candidate U r remote, if candidate U r remote then ruleScore U r remote else 0)"
    by (rule matchRule_candidate)
  have c2: "candidate U r remote \<longleftrightarrow>
          filepath_Match (normalizePattern (ToLower U (Rule.Host r)))
            (ToLower U (ParsedRemote.Host remote)) = Inr True
          \<and> filepath_Match (normalizePattern (ToLower U (Rule.Owner r)))
              (ToLower U (ParsedRemote.Owner remote)) = Inr True"
    by (simp add: candidate_def hostPattern_def ownerPattern_def)
  have c3: "normalizePattern s = (if TrimSpace s = [] then ''*'' else TrimSpace s)"
    by (simp add: normalizePattern_def Let_def)
  have c4: "Match U rules (Some remote) = Inl e \<longleftrightarrow>
          e = NoRuleMatched (ParsedRemote.Host remote) (ParsedRemote.Owner remote)
          \<and> (\<forall>x\<in>set rules. \<not> candidate U x remote)"
    using assms by (rule Match_Inl)
  have c5: "Match U [] (Some remote) =
          Inl (NoRuleMatched (ParsedRemote.Host remote) (ParsedRemote.Owner remote))"
    using assms by (simp add: Match_def)
  have c6: "Match U rules (Some remote) = Inr m \<longrightarrow>
          Index m < length rules \<and> Rule m = rules ! Index m
          \<and> candidate U (Rule m) remote \<and> Score m = ruleScore U (Rule m) remote
          \<and> (\<forall>j<length rules. candidate U (rules ! j) remote \<longrightarrow>
                ruleScore U (rules ! j) remote \<le>s Score m)
          \<and> (\<forall>j<Index m. candidate U (rules ! j) remote \<longrightarrow>
                ruleScore U (rules ! j) remote <s Score m)"
    using Match_Inr [of U rules remote m] by blast
  have c7: "ruleScore U r remote =
          Priority r * 1000
          + specificityScore U (normalizePattern (ToLower U (Rule.Host r)))
              (ToLower U (ParsedRemote.Host remote))
          + specificityScore U (normalizePattern (ToLower U (Rule.Owner r)))
              (ToLower U (ParsedRemote.Owner remote))
          + (literalChars (normalizePattern (ToLower U (Rule.Host r)))
             + literalChars (normalizePattern (ToLower U (Rule.Owner r))))"
    by (simp add: ruleScore_def hostPattern_def ownerPattern_def)
  have c8: "specificityScore U p v =
          (if p = ''*'' then 0
           else if \<not> hasWildcard p then (if EqualFold U p v then 400 else 300)
           else 100)"
    by (rule specificityScore_cases)
  have c9: "hasWildcard p \<longleftrightarrow> (\<exists>c\<in>set p. c = CHR ''*'' \<or> c = CHR ''?'' \<or> c = CHR ''['')"
    by (rule hasWildcard_iff)
  have c10: "list_all (\<lambda>c. (of_char c :: int) < 0x80) p
        \<and> list_all (\<lambda>c. (of_char c :: int) < 0x80) v \<longrightarrow>
          (EqualFold U p v \<longleftrightarrow> ToLower U p = ToLower U v)"
    using EqualFold_ascii [of p v U] by blast
  have c11: "literalChars p =
          of_nat (length (filter (\<lambda>r. r \<noteq> of_char (CHR ''*'') \<and> r \<noteq> of_char (CHR ''?'')
                                        \<and> r \<noteq> of_char (CHR ''['') \<and> r \<noteq> of_char (CHR '']''))
                           (runes p)))"
    using literalChars_count [of p] by (simp add: literalCount_def isLiteral_def [abs_def])
  show ?thesis
    using c1 c2 c3 c4 c5 c6 c7 c8 c9 c10 c11 by (intro conjI)
qed

text \<open>
  The remote and the two rules of the repository's matcher test
  (\<^verbatim>\<open>TestMatchPrefersSpecificOwnerOverWildcard\<close>); then a host that begins with the
  two-byte letter \<^verbatim>\<open>U+00E9\<close>: the pattern made of that letter alone has one literal
  character, and the two rules \<open>rule_suffix_x\<close> and \<open>rule_accent\<close> both score 101, so
  that the first of them wins.
\<close>

theorem Match_earliest_best_witness:
  "ParsedRemote.Host remote_CompanyOrg \<noteq> []
   \<and> Match example_Unicode [rule_wild, rule_spec] (Some remote_CompanyOrg) =
       Inr \<lparr>Rule = rule_spec, Score = 820, Index = 1\<rparr>
   \<and> candidate example_Unicode rule_spec remote_CompanyOrg
   \<and> ruleScore example_Unicode rule_spec remote_CompanyOrg = 820
   \<and> candidate example_Unicode rule_wild remote_CompanyOrg
   \<and> ruleScore example_Unicode rule_wild remote_CompanyOrg <s 820
   \<and> Match example_Unicode [] (Some remote_CompanyOrg) =
       Inl (NoRuleMatched ''github.com'' ''CompanyOrg'')
   \<and> list_all (\<lambda>c. (of_char c :: int) < 0x80) ''github.com''
   \<and> list_all (\<lambda>c. (of_char c :: int) < 0x80) ''GitHub.com''
   \<and> EqualFold example_Unicode ''github.com'' ''GitHub.com''
   \<and> literalChars [CHR 0xC3, CHR 0xA9] = 1
   \<and> specificityScore example_Unicode [CHR 0xC3, CHR 0xA9] [CHR 0xC3, CHR 0xA9] = 400
   \<and> ParsedRemote.Host remote_accent \<noteq> []
   \<and> matchRule example_Unicode rule_suffix_x remote_accent = (True, 101)
   \<and> matchRule example_Unicode rule_accent remote_accent = (True, 101)
   \<and> Match example_Unicode [rule_suffix_x, rule_accent] (Some remote_accent) =
       Inr \<lparr>Rule = rule_suffix_x, Score = 101, Index = 0\<rparr>"
proof -
  have h0: "ParsedRemote.Host remote_CompanyOrg \<noteq> []" by code_simp
  have h1: "Match example_Unicode [rule_wild, rule_spec] (Some remote_CompanyOrg) =
       Inr \<lparr>Rule = rule_spec, Score = 820, Index = 1\<rparr>"
    by code_simp
  have h2: "candidate example_Unicode rule_wild remote_CompanyOrg" by code_simp
  have h3: "ParsedRemote.Host remote_CompanyOrg = ''github.com''"
    "ParsedRemote.Owner remote_CompanyOrg = ''CompanyOrg''"
    by code_simp+
  have h4: "list_all (\<lambda>c. (of_char c :: int) < 0x80) ''github.com''"
    "list_all (\<lambda>c. (of_char c :: int) < 0x80) ''GitHub.com''"
    by simp_all
  have h5: "ToLower example_Unicode ''github.com'' = ToLower example_Unicode ''GitHub.com''"
    by code_simp
  have h6: "literalChars [CHR 0xC3, CHR 0xA9] = 1" by code_simp
  have h7: "specificityScore example_Unicode [CHR 0xC3, CHR 0xA9] [CHR 0xC3, CHR 0xA9] = 400"
    by code_simp
  have h8: "ParsedRemote.Host remote_accent \<noteq> []" by code_simp
  have h9: "matchRule example_Unicode rule_suffix_x remote_accent = (True, 101)" by code_simp
  have h10: "matchRule example_Unicode rule_accent remote_accent = (True, 101)" by code_simp
  have h11: "Match example_Unicode [rule_suffix_x, rule_accent] (Some remote_accent) =
       Inr \<lparr>Rule = rule_suffix_x, Score = 101, Index = 0\<rparr>"
    by code_simp
  have a: "Match example_Unicode [rule_wild, rule_spec] (Some remote_CompanyOrg) =
       Inr \<lparr>Rule = rule_spec, Score = 820, Index = 1\<rparr>
   \<and> candidate example_Unicode rule_spec remote_CompanyOrg
   \<and> ruleScore example_Unicode rule_spec remote_CompanyOrg = 820
   \<and> candidate example_Unicode rule_wild remote_CompanyOrg
   \<and> ruleScore example_Unicode rule_wild remote_CompanyOrg <s 820
   \<and> Match example_Unicode [] (Some remote_CompanyOrg) =
       Inl (NoRuleMatched ''github.com'' ''CompanyOrg'')"
    using Match_earliest_best [OF h0, of example_Unicode rule_spec "[]" "[rule_wild, rule_spec]"
        "NoRuleMatched ''github.com'' ''CompanyOrg''"
        "\<lparr>Rule = rule_spec, Score = 820, Index = 1\<rparr>" "[]" "[]"]
      h0 h1 h2 h3
    by (auto simp: All_less_Suc2)
  have "list_all (\<lambda>c. (of_char c :: int) < 0x80) ''github.com''
        \<and> list_all (\<lambda>c. (of_char c :: int) < 0x80) ''GitHub.com'' \<longrightarrow>
          (EqualFold example_Unicode ''github.com'' ''GitHub.com''
           \<longleftrightarrow> ToLower example_Unicode ''github.com'' = ToLower example_Unicode ''GitHub.com'')"
    using Match_earliest_best [OF h0, of example_Unicode rule_spec "[]" "[]"
        "NoRuleMatched ''github.com'' ''CompanyOrg''"
        "\<lparr>Rule = rule_spec, Score = 820, Index = 1\<rparr>" "''github.com''" "''GitHub.com''"]
    by (elim conjE)
  then have b: "EqualFold example_Unicode ''github.com'' ''GitHub.com''"
    using h4 h5 by blast
  show ?thesis using a b h0 h4 h6 h7 h8 h9 h10 h11 by (intro conjI) blast+
qed

text \<open>
  Claim C1 as stated normalises a pattern by lower-casing it and replacing the empty
  pattern by \<^verbatim>\<open>*\<close>. With the host pattern \<^verbatim>\<open> github.com\<close> (a leading blank) that pattern
  does not match the host \<^verbatim>\<open>github.com\<close>, so the rule would be no candidate and the
  match would fail; \<open>Match\<close> trims the blank and returns the rule.
\<close>

theorem Match_trim_counterexample:
  "filepath_Match (claimedPattern example_Unicode '' github.com'') (ToLower example_Unicode ''github.com'') = Inr False
   \<and> Match example_Unicode [\<lparr>ID = ''r1'', Host = '' github.com'', Owner = ''*'', Key = ''~/.ssh/k'',
              Priority = 0\<rparr>] (Some remote_CompanyOrg) =
       Inr \<lparr>Rule = \<lparr>ID = ''r1'', Host = '' github.com'', Owner = ''*'', Key = ''~/.ssh/k'',
                     Priority = 0\<rparr>,
            Score = 410, Index = 0\<rparr>"
  by code_simp

text \<open>
  Claim C3, as amended. Let two rules both be candidates for a remote with a non-empty
  host, the first with the strictly higher priority. If the priorities lie between
  \<open>-10\<^sup>1\<^sup>5\<close> and \<open>10\<^sup>1\<^sup>5\<close> and the first rule's patterns are shorter than \<open>2\<^sup>3\<^sup>2\<close> bytes
  (so that the 64-bit score does not wrap), and the two normalised patterns of the
  second rule hold fewer than 200 literal characters together, then the first rule has
  the strictly higher score, the second rule wins no match against a rule list that
  holds the first, and of the two alone the first wins in either order.
\<close>

theorem priority_dominates_short_patterns:
  assumes "ParsedRemote.Host remote \<noteq> []"
    and "candidate U r1 remote" and "candidate U r2 remote"
    and "Priority r2 <s Priority r1"
    and "- (10 ^ 15) \<le> sint (Priority r2)" and "sint (Priority r1) \<le> 10 ^ 15"
    and "length (Rule.Host r1) < 2 ^ 32" and "length (Rule.Owner r1) < 2 ^ 32"
    and "literalCount (hostPattern U r2) + literalCount (ownerPattern U r2) < 200"
  shows "ruleScore U r2 remote <s ruleScore U r1 remote
    \<and> (r1 \<in> set rules \<and> Match U rules (Some remote) = Inr m \<longrightarrow>
          Rule m \<noteq> r2 \<and> ruleScore U r2 remote <s Score m)
    \<and> Match U [r1, r2] (Some remote) = Inr \<lparr>Rule = r1, Score = ruleScore U r1 remote, Index = 0\<rparr>
    \<and> Match U [r2, r1] (Some remote) = Inr \<lparr>Rule = r1, Score = ruleScore U r1 remote, Index = 1\<rparr>"
proof -
  have lt: "sint (Priority r2) < sint (Priority r1)"
    using assms(4) by (simp add: word_sless_alt)
  have b1: "- (10 ^ 15) \<le> sint (Priority r1)" "sint (Priority r1) \<le> 10 ^ 15"
    using lt assms(5,6) by simp_all
  have b2: "- (10 ^ 15) \<le> sint (Priority r2)" "sint (Priority r2) \<le> 10 ^ 15"
    using lt assms(5,6) by simp_all
  have l1: "literalCount (hostPattern U r1) < 2 ^ 34" "literalCount (ownerPattern U r1) < 2 ^ 34"
    using literalCount_normalizePattern [of U "Rule.Host r1"]
      literalCount_normalizePattern [of U "Rule.Owner r1"] assms(7,8)
    by (simp_all add: hostPattern_def ownerPattern_def)
  have l2: "literalCount (hostPattern U r2) < 2 ^ 34" "literalCount (ownerPattern U r2) < 2 ^ 34"
    using assms(9) by simp_all
  note s1 = sint_ruleScore [OF b1 l1, of remote]
  note s2 = sint_ruleScore [OF b2 l2, of remote]
  have sp1: "0 \<le> sint (specificityScore U (hostPattern U r1) (ToLower U (ParsedRemote.Host remote)))"
    "0 \<le> sint (specificityScore U (ownerPattern U r1) (ToLower U (ParsedRemote.Owner remote)))"
    using sint_specificityScore by simp_all
  have sp2: "sint (specificityScore U (hostPattern U r2) (ToLower U (ParsedRemote.Host remote))) \<le> 400"
    "sint (specificityScore U (ownerPattern U r2) (ToLower U (ParsedRemote.Owner remote))) \<le> 400"
    using sint_specificityScore by simp_all
  have "sint (ruleScore U r2 remote) < sint (ruleScore U r1 remote)"
    unfolding s1 s2 using lt sp1 sp2 assms(9) by linarith
  then have score: "ruleScore U r2 remote <s ruleScore U r1 remote"
    by (simp add: word_sless_alt)
  have never: "Rule m \<noteq> r2 \<and> ruleScore U r2 remote <s Score m"
    if "r1 \<in> set rules" "Match U rules (Some remote) = Inr m"
  proof -
    from that(1) obtain j where j: "j < length rules" "rules ! j = r1"
      by (auto simp: in_set_conv_nth)
    have m: "Score m = ruleScore U (Rule m) remote"
      "\<forall>j<length rules. candidate U (rules ! j) remote \<longrightarrow> ruleScore U (rules ! j) remote \<le>s Score m"
      using Match_Inr [OF that(2)] by blast+
    then have "ruleScore U r1 remote \<le>s Score m" using j assms(2) by blast
    with score have below: "ruleScore U r2 remote <s Score m"
      by (rule signed.less_le_trans)
    then have "Rule m \<noteq> r2" using m(1) by auto
    then show ?thesis using below by simp
  qed
  have ns: "\<not> ruleScore U r1 remote <s ruleScore U r2 remote"
    using score by (simp add: signed.not_less signed.less_imp_le)
  have m12: "Match U [r1, r2] (Some remote) = Inr \<lparr>Rule = r1, Score = ruleScore U r1 remote, Index = 0\<rparr>"
    using assms(1,2,3) ns by (simp add: Match_def matchRule_candidate Let_def)
  have m21: "Match U [r2, r1] (Some remote) = Inr \<lparr>Rule = r1, Score = ruleScore U r1 remote, Index = 1\<rparr>"
    using assms(1,2,3) score by (simp add: Match_def matchRule_candidate Let_def)
  show ?thesis using score never m12 m21 by blast
qed

theorem priority_dominates_short_patterns_witness:
  "ParsedRemote.Host remote_CompanyOrg \<noteq> []
   \<and> candidate example_Unicode rule_forced remote_CompanyOrg \<and> candidate example_Unicode rule_spec remote_CompanyOrg
   \<and> Priority rule_spec <s Priority rule_forced
   \<and> - (10 ^ 15) \<le> sint (Priority rule_spec) \<and> sint (Priority rule_forced) \<le> 10 ^ 15
   \<and> length (Rule.Host rule_forced) < 2 ^ 32 \<and> length (Rule.Owner rule_forced) < 2 ^ 32
   \<and> literalCount (hostPattern example_Unicode rule_spec) + literalCount (ownerPattern example_Unicode rule_spec) < 200
   \<and> ruleScore example_Unicode rule_spec remote_CompanyOrg <s ruleScore example_Unicode rule_forced remote_CompanyOrg
   \<and> Match example_Unicode [rule_spec, rule_forced] (Some remote_CompanyOrg) =
       Inr \<lparr>Rule = rule_forced, Score = ruleScore example_Unicode rule_forced remote_CompanyOrg, Index = 1\<rparr>"
proof -
  have h1: "ParsedRemote.Host remote_CompanyOrg \<noteq> []" by code_simp
  have h2: "candidate example_Unicode rule_forced remote_CompanyOrg" by code_simp
  have h3: "candidate example_Unicode rule_spec remote_CompanyOrg" by code_simp
  have h4: "Priority rule_spec <s Priority rule_forced"
    by (simp add: rule_spec_def rule_forced_def word_sless_alt)
  have h5: "- (10 ^ 15) \<le> sint (Priority rule_spec)" by (simp add: rule_spec_def)
  have h6: "sint (Priority rule_forced) \<le> 10 ^ 15" by (simp add: rule_forced_def)
  have h7: "length (Rule.Host rule_forced) < 2 ^ 32" by (simp add: rule_forced_def)
  have h8: "length (Rule.Owner rule_forced) < 2 ^ 32" by (simp add: rule_forced_def)
  have h9: "literalCount (hostPattern example_Unicode rule_spec) + literalCount (ownerPattern example_Unicode rule_spec) = 20"
    by code_simp
  then have h9': "literalCount (hostPattern example_Unicode rule_spec) + literalCount (ownerPattern example_Unicode rule_spec) < 200"
    by simp
  show ?thesis
    using priority_dominates_short_patterns [OF h1 h2 h3 h4 h5 h6 h7 h8 h9', of "[]"]
      h1 h2 h3 h4 h5 h6 h7 h8 h9'
    by blast
qed

lemma Match_huge_wild:
  "Match example_Unicode [rule_huge, rule_wild] (Some remote_CompanyOrg) =
     Inr \<lparr>Rule = rule_wild, Score = 410, Index = 1\<rparr>"
  by code_simp

lemma parseSCPLike_remote_long:
  "parseSCPLike (''git@h:'' @ replicate 200 (CHR ''a'') @ ''/r'') = Inr remote_long"
  by code_simp

lemma matchRule_forced_long: "matchRule example_Unicode rule_forced remote_long = (True, 1000)"
  by code_simp

lemma matchRule_literal_long: "matchRule example_Unicode rule_literal_long remote_long = (True, 1001)"
  by code_simp

text \<open>
  Claim C3 as stated speaks of all patterns, long ones included. The remote \<^verbatim>\<open>git@h:aaa...a/r\<close> whose
  ownership path is 200 letters long is a candidate of the catch-all rule with priority
  1, which scores 1000, and of the rule with priority 0 that names the host and the
  ownership path literally, which scores \<open>400 + 400 + 1 + 200 = 1001\<close> and wins.
  (A priority can also be too large for the product: the catch-all rule with priority
  9223372036854776 gets a negative score and loses to a rule with priority 0.)
\<close>

theorem priority_long_pattern_counterexample:
  "parseSCPLike (''git@h:'' @ replicate 200 (CHR ''a'') @ ''/r'') = Inr remote_long
   \<and> Priority rule_literal_long <s Priority rule_forced
   \<and> matchRule example_Unicode rule_forced remote_long = (True, 1000)
   \<and> matchRule example_Unicode rule_literal_long remote_long = (True, 1001)
   \<and> (1000 :: 64 word) <s 1001
   \<and> Match example_Unicode [rule_forced, rule_literal_long] (Some remote_long) =
       Inr \<lparr>Rule = rule_literal_long, Score = 1001, Index = 1\<rparr>
   \<and> Priority rule_wild <s Priority rule_huge
   \<and> Match example_Unicode [rule_huge, rule_wild] (Some remote_CompanyOrg) =
       Inr \<lparr>Rule = rule_wild, Score = 410, Index = 1\<rparr>"
proof -
  have p: "Priority rule_literal_long <s Priority rule_forced"
    by (simp add: rule_literal_long_def rule_forced_def word_sless_alt)
  have lt: "(1000 :: 64 word) <s 1001" by (simp add: word_sless_alt)
  have h: "ParsedRemote.Host remote_long \<noteq> []" by (simp add: remote_long_def)
  have m: "Match example_Unicode [rule_forced, rule_literal_long] (Some remote_long) =
       Inr \<lparr>Rule = rule_literal_long, Score = 1001, Index = 1\<rparr>"
    using h lt by (simp add: Match_def matchRule_forced_long matchRule_literal_long)
  have p2: "Priority rule_wild <s Priority rule_huge"
    by (simp add: rule_wild_def rule_huge_def word_sless_alt)
  show ?thesis
    using parseSCPLike_remote_long matchRule_forced_long matchRule_literal_long p lt m p2
      Match_huge_wild
    by (intro conjI)
qed

text \<open>
  Claim C2. A remote that \<open>Parse\<close> returns has a non-empty host, a non-empty ownership
  path and a non-empty repository name, whatever its transport (so in particular for
  \<^verbatim>\<open>ssh\<close> and \<^verbatim>\<open>https\<close>); hence \<open>Match\<close> never answers such a remote with the
  empty-host error.
\<close>

theorem Parse_fields_nonempty:
  "Parse U url_Parse input = Inr p \<longrightarrow>
     ParsedRemote.Host p \<noteq> [] \<and> ParsedRemote.Owner p \<noteq> [] \<and> Repo p \<noteq> []
     \<and> Match U rules (Some p) \<noteq> Inl EmptyHost"
proof
  assume a: "Parse U url_Parse input = Inr p"
  then have "parseURL U url_Parse (TrimSpace input) = Inr p \<or> parseSCPLike (TrimSpace input) = Inr p"
    by (auto simp: Parse_def Let_def split: if_splits)
  then have f: "ParsedRemote.Host p \<noteq> [] \<and> ParsedRemote.Owner p \<noteq> [] \<and> Repo p \<noteq> []"
    using parseURL_Inr parseSCPLike_Inr by blast
  then have "Match U rules (Some p) \<noteq> Inl EmptyHost"
    by (auto simp: Match_def split: option.splits)
  with f show "ParsedRemote.Host p \<noteq> [] \<and> ParsedRemote.Owner p \<noteq> [] \<and> Repo p \<noteq> []
     \<and> Match U rules (Some p) \<noteq> Inl EmptyHost"
    by simp
qed

theorem Parse_fields_nonempty_witness:
  "Parse example_Unicode example_url_Parse ''https://github.com/CompanyOrg/project.git'' =
     Inr \<lparr>Original = ''https://github.com/CompanyOrg/project.git'',
          Transport = TransportHTTPS, Scheme = ''https'', User = [],
          Host = ''github.com'', Port = [], Owner = ''CompanyOrg'',
          Repo = ''project'', RawPath = ''CompanyOrg/project.git'', IsRemoteURL = True\<rparr>
   \<and> Match example_Unicode [rule_wild] (Some \<lparr>Original = ''https://github.com/CompanyOrg/project.git'',
          Transport = TransportHTTPS, Scheme = ''https'', User = [],
          Host = ''github.com'', Port = [], Owner = ''CompanyOrg'',
          Repo = ''project'', RawPath = ''CompanyOrg/project.git'', IsRemoteURL = True\<rparr>)
       \<noteq> Inl EmptyHost"
proof -
  let ?p = "\<lparr>Original = ''https://github.com/CompanyOrg/project.git'',
          Transport = TransportHTTPS, Scheme = ''https'', User = [],
          Host = ''github.com'', Port = [], Owner = ''CompanyOrg'',
          Repo = ''project'', RawPath = ''CompanyOrg/project.git'', IsRemoteURL = True\<rparr>"
  have h: "Parse example_Unicode example_url_Parse ''https://github.com/CompanyOrg/project.git'' = Inr ?p"
    by code_simp
  show ?thesis
    using Parse_fields_nonempty [of example_Unicode example_url_Parse
        "''https://github.com/CompanyOrg/project.git''" ?p "[rule_wild]"] h
    by blast
qed

section \<open>Properties of the resolution\<close>

lemma ReplaceAll_concat:
  "ReplaceAll s old new = concat (map (\<lambda>c. if c = old then new else [c]) s)"
  by (induction s) simp_all

lemma shellWords_single_quoted:
  "shellWords SingleQuoted (Some w)
     (ReplaceAll k (CHR 0x27) [CHR 0x27, CHR 0x22, CHR 0x27, CHR 0x22, CHR 0x27]
        @ CHR 0x27 # rest)
   = shellWords Unquoted (Some (w @ k)) rest"
  by (induction k arbitrary: w) simp_all

lemma shellWords_BuildGITSSHCommand:
  "shellWords Unquoted None (BuildGITSSHCommand keyPath) =
     Some [''ssh'', ''-F'', ''/dev/null'', ''-i'', keyPath, ''-o'', ''IdentitiesOnly=yes'']"
proof -
  have q: "shellQuote keyPath =
     CHR 0x27 # ReplaceAll keyPath (CHR 0x27) [CHR 0x27, CHR 0x22, CHR 0x27, CHR 0x22, CHR 0x27]
       @ [CHR 0x27]"
    by (simp add: shellQuote_def)
  have tail: "shellWords Unquoted (Some keyPath) '' -o IdentitiesOnly=yes'' =
     Some [keyPath, ''-o'', ''IdentitiesOnly=yes'']"
    by simp
  have "shellWords Unquoted None (BuildGITSSHCommand keyPath) =
     map_option (\<lambda>ws. ''ssh'' # ''-F'' # ''/dev/null'' # ''-i'' # ws)
       (shellWords SingleQuoted (Some [])
          (ReplaceAll keyPath (CHR 0x27) [CHR 0x27, CHR 0x22, CHR 0x27, CHR 0x22, CHR 0x27]
             @ CHR 0x27 # '' -o IdentitiesOnly=yes''))"
    by (simp add: BuildGITSSHCommand_def q option.map_comp comp_def)
  then show ?thesis
    by (simp only: shellWords_single_quoted append_Nil tail) simp
qed

lemma BuildGITSSHCommand_text:
  "BuildGITSSHCommand keyPath =
     ''ssh -F /dev/null -i '' @ [CHR 0x27]
     @ concat (map (\<lambda>c. if c = CHR 0x27 then [CHR 0x27, CHR 0x22, CHR 0x27, CHR 0x22, CHR 0x27]
                          else [c]) keyPath)
     @ [CHR 0x27] @ '' -o IdentitiesOnly=yes''"
  by (simp add: BuildGITSSHCommand_def shellQuote_def ReplaceAll_concat)

text \<open>
  Claim C4. When \<open>FromURL\<close> returns a result to which key selection applies, the key
  path of the result is the expansion of the matched rule's key, and the override
  string is \<^verbatim>\<open>ssh -F /dev/null -i \<close>, then the key path between single quotes with each
  single quote of the path written as \<^verbatim>\<open>'"'"'\<close>, then \<^verbatim>\<open> -o IdentitiesOnly=yes\<close>. A
  shell that splits the override string into words gets the key path back as the one
  word after \<^verbatim>\<open>-i\<close>.
\<close>

theorem FromURL_override_string:
  "FromURL os U url_Parse cfg rawURL = Inr res \<and> SSHSelectionApplies res \<longrightarrow>
     (\<exists>c p m. cfg = Some c \<and> Parse U url_Parse rawURL = Inr p
        \<and> Match U (Rules c) (Some p) = Inr m
        \<and> ExpandPath os (Key (Rule m)) = Inr (KeyPath res)
        \<and> MatchedRule res = Some (Rule m))
     \<and> GITSSHCommand res =
         ''ssh -F /dev/null -i '' @ [CHR 0x27]
         @ concat (map (\<lambda>c. if c = CHR 0x27
                              then [CHR 0x27, CHR 0x22, CHR 0x27, CHR 0x22, CHR 0x27]
                              else [c]) (KeyPath res))
         @ [CHR 0x27] @ '' -o IdentitiesOnly=yes''
     \<and> shellWords Unquoted None (GITSSHCommand res) =
         Some [''ssh'', ''-F'', ''/dev/null'', ''-i'', KeyPath res, ''-o'', ''IdentitiesOnly=yes'']"
proof
  assume a: "FromURL os U url_Parse cfg rawURL = Inr res \<and> SSHSelectionApplies res"
  then obtain c p m where
    s: "cfg = Some c" "Parse U url_Parse rawURL = Inr p" "Match U (Rules c) (Some p) = Inr m"
      "ExpandPath os (Key (Rule m)) = Inr (KeyPath res)" "MatchedRule res = Some (Rule m)"
      "GITSSHCommand res = BuildGITSSHCommand (KeyPath res)"
    by (auto simp: FromURL_def Let_def split: sum.splits if_splits option.splits)
  have "\<exists>c p m. cfg = Some c \<and> Parse U url_Parse rawURL = Inr p
        \<and> Match U (Rules c) (Some p) = Inr m
        \<and> ExpandPath os (Key (Rule m)) = Inr (KeyPath res)
        \<and> MatchedRule res = Some (Rule m)"
    using s by blast
  then show "(\<exists>c p m. cfg = Some c \<and> Parse U url_Parse rawURL = Inr p
        \<and> Match U (Rules c) (Some p) = Inr m
        \<and> ExpandPath os (Key (Rule m)) = Inr (KeyPath res)
        \<and> MatchedRule res = Some (Rule m))
     \<and> GITSSHCommand res =
         ''ssh -F /dev/null -i '' @ [CHR 0x27]
         @ concat (map (\<lambda>c. if c = CHR 0x27
                              then [CHR 0x27, CHR 0x22, CHR 0x27, CHR 0x22, CHR 0x27]
                              else [c]) (KeyPath res))
         @ [CHR 0x27] @ '' -o IdentitiesOnly=yes''
     \<and> shellWords Unquoted None (GITSSHCommand res) =
         Some [''ssh'', ''-F'', ''/dev/null'', ''-i'', KeyPath res, ''-o'', ''IdentitiesOnly=yes'']"
    unfolding s(6) using BuildGITSSHCommand_text [of "KeyPath res"]
      shellWords_BuildGITSSHCommand [of "KeyPath res"]
    by blast
qed

theorem FromURL_override_string_witness:
  "FromURL os_example example_Unicode example_url_Parse (Some config_example)
       ''git@github.com:CompanyOrg/proj.git'' = Inr result_example
   \<and> SSHSelectionApplies result_example
   \<and> KeyPath result_example = ''/home/dev/keys/bob's key''
   \<and> GITSSHCommand result_example =
       ''ssh -F /dev/null -i '' @ [CHR 0x27] @ ''/home/dev/keys/bob''
       @ [CHR 0x27, CHR 0x22, CHR 0x27, CHR 0x22, CHR 0x27] @ ''s key'' @ [CHR 0x27]
       @ '' -o IdentitiesOnly=yes''
   \<and> shellWords Unquoted None (GITSSHCommand result_example) =
       Some [''ssh'', ''-F'', ''/dev/null'', ''-i'', ''/home/dev/keys/bob's key'', ''-o'',
             ''IdentitiesOnly=yes'']"
proof -
  have h1: "FromURL os_example example_Unicode example_url_Parse (Some config_example)
       ''git@github.com:CompanyOrg/proj.git'' = Inr result_example"
    by code_simp
  have h2: "SSHSelectionApplies result_example" by (simp add: result_example_def)
  have h3: "KeyPath result_example = ''/home/dev/keys/bob's key''"
    by (simp add: result_example_def)
  show ?thesis
    using FromURL_override_string [of os_example example_Unicode example_url_Parse "Some config_example"
        "''git@github.com:CompanyOrg/proj.git''" result_example] h1 h2 h3
    by simp
qed



section \<open>Properties of the target inferrer\<close>

lemma positionalArgs_loop_scanArgs:
  "positionalArgs_loop args i out = out @ scanArgs (drop i args)"
proof (induction "length args - i" arbitrary: i out rule: less_induct)
  case less
  show ?case
  proof (cases "i < length args")
    case False
    then show ?thesis by (simp add: positionalArgs_loop.simps [of args i])
  next
    case True
    have d: "drop i args = args ! i # drop (Suc i) args"
      using True by (simp add: Cons_nth_drop_Suc)
    have ih1: "positionalArgs_loop args (Suc i) out' = out' @ scanArgs (drop (Suc i) args)" for out'
      using less [of "Suc i" out'] True by simp
    have ih2: "positionalArgs_loop args (Suc (Suc i)) out' = out' @ scanArgs (drop (Suc (Suc i)) args)"
      if "Suc i < length args" for out'
      using less [of "Suc (Suc i)" out'] that by simp
    have t: "tl (drop (Suc i) args) = drop (Suc (Suc i)) args"
      by (simp add: drop_Suc tl_drop)
    have e: "(drop (Suc i) args \<noteq> []) = (Suc i < length args)"
      by auto
    show ?thesis
      unfolding positionalArgs_loop.simps [of args i out] d scanArgs.simps
      using True by (simp add: ih1 ih2 t e Let_def del: drop_eq_Nil drop_eq_Nil2)
  qed
qed

lemma positionalArgs_scanArgs: "positionalArgs args = scanArgs args"
  by (simp add: positionalArgs_def positionalArgs_loop_scanArgs)

lemma takesValue_iff:
  "takesValue a \<longleftrightarrow>
     a \<in> {''-c'', ''--config'', ''-C'', ''--upload-pack'', ''--receive-pack'', ''-o''}
     \<and> \<not> Contains a ''=''"
  by (auto simp: takesValue_def HasPrefix_def)

lemmas scp_defs = IsLikelyRemoteURL_def scpLikeRe_MatchString_def
  scpLikeRe_FindStringSubmatch_def scpWithUser_def scpHostPath_def

text \<open>
  Claim C8. \<^verbatim>\<open>InferGitTarget\<close> returns an error exactly when the leading token is
  \<^verbatim>\<open>clone\<close> and the positional scan of the remaining tokens finds nothing, and the
  error is then the missing-clone-target error. Every other argument vector gives a
  target and no error: the empty vector gives the zero target (kind none);
  \<^verbatim>\<open>push\<close>, \<^verbatim>\<open>fetch\<close>, \<^verbatim>\<open>pull\<close> and \<^verbatim>\<open>ls-remote\<close> with no positional argument
  give kind none with a non-empty advisory note; a leading token that is not a
  recognised subcommand gives kind none.
\<close>

theorem InferGitTarget_error_iff:
  "snd (InferGitTarget args) =
     (if args \<noteq> [] \<and> hd args = ''clone'' \<and> positionalArgs (tl args) = []
      then Some MissingCloneTarget else None)
   \<and> InferGitTarget [] = (GitTarget0, None)
   \<and> Kind GitTarget0 = TargetNone
   \<and> (args \<noteq> [] \<and> hd args \<in> {''push'', ''fetch'', ''pull'', ''ls-remote''}
        \<and> positionalArgs (tl args) = [] \<longrightarrow>
          Kind (fst (InferGitTarget args)) = TargetNone
          \<and> Command (fst (InferGitTarget args)) = hd args
          \<and> Notes (fst (InferGitTarget args)) \<noteq> []
          \<and> snd (InferGitTarget args) = None)
   \<and> (args \<noteq> [] \<and> hd args \<notin> {''push'', ''fetch'', ''pull'', ''clone'', ''ls-remote'', ''remote''}
        \<longrightarrow> InferGitTarget args = (GitTarget0\<lparr>Command := hd args\<rparr>, None))"
  by (auto simp: InferGitTarget_def Let_def GitTarget0_def)

theorem InferGitTarget_error_iff_witness:
  "snd (InferGitTarget [''clone'', ''--depth=1'']) = Some MissingCloneTarget
   \<and> snd (InferGitTarget [''clone'', ''git@github.com:Org/project.git'']) = None
   \<and> Kind (fst (InferGitTarget [''pull''])) = TargetNone
   \<and> Notes (fst (InferGitTarget [''pull''])) = ''remote not specified explicitly''
   \<and> snd (InferGitTarget [''pull'']) = None
   \<and> InferGitTarget [''status'', ''-s''] = (GitTarget0\<lparr>Command := ''status''\<rparr>, None)"
  using InferGitTarget_error_iff [of "[''clone'', ''--depth=1'']"]
    InferGitTarget_error_iff [of "[''clone'', ''git@github.com:Org/project.git'']"]
    InferGitTarget_error_iff [of "[''pull'']"]
    InferGitTarget_error_iff [of "[''status'', ''-s'']"]
  by (simp add: positionalArgs_scanArgs HasPrefix_def takesValue_def InferGitTarget_def
      GitTarget0_def)

text \<open>
  Claim C9. The positional scan of an argument list: after a \<^verbatim>\<open>--\<close> token every
  remaining token is positional and the scan stops; an empty token is skipped; a token
  starting with \<^verbatim>\<open>-\<close> is skipped, together with the token after it when the flag is
  one of \<^verbatim>\<open>-c\<close>, \<^verbatim>\<open>--config\<close>, \<^verbatim>\<open>-C\<close>, \<^verbatim>\<open>--upload-pack\<close>,
  \<^verbatim>\<open>--receive-pack\<close>, \<^verbatim>\<open>-o\<close> and contains no \<^verbatim>\<open>=\<close>; any other token is
  positional and kept in order. So \<^verbatim>\<open>fetch --prune mirror\<close> names the remote
  \<^verbatim>\<open>mirror\<close>.
\<close>

theorem positionalArgs_scan:
  "positionalArgs [] = []
   \<and> positionalArgs (''--'' # rest) = rest
   \<and> positionalArgs ([] # rest) = positionalArgs rest
   \<and> (HasPrefix a ''-'' \<and> a \<noteq> ''--'' \<longrightarrow>
         positionalArgs (a # rest) =
           (if a \<in> {''-c'', ''--config'', ''-C'', ''--upload-pack'', ''--receive-pack'', ''-o''}
               \<and> \<not> Contains a ''=''
            then positionalArgs (tl rest) else positionalArgs rest))
   \<and> (b \<noteq> [] \<and> \<not> HasPrefix b ''-'' \<longrightarrow>
         positionalArgs (b # rest) = b # positionalArgs rest)
   \<and> InferGitTarget [''fetch'', ''--prune'', ''mirror''] =
         (GitTarget0\<lparr>Kind := TargetRemote, Command := ''fetch'', RemoteName := ''mirror''\<rparr>, None)"
proof -
  have flag: "positionalArgs (a # rest) =
           (if a \<in> {''-c'', ''--config'', ''-C'', ''--upload-pack'', ''--receive-pack'', ''-o''}
               \<and> \<not> Contains a ''=''
            then positionalArgs (tl rest) else positionalArgs rest)"
    if "HasPrefix a ''-''" "a \<noteq> ''--''"
  proof -
    have "a \<noteq> []" using that by (auto simp: HasPrefix_def)
    then show ?thesis
      using that unfolding positionalArgs_scanArgs takesValue_iff [symmetric]
      by (cases rest) simp_all
  qed
  have pos: "positionalArgs (b # rest) = b # positionalArgs rest"
    if "b \<noteq> []" "\<not> HasPrefix b ''-''"
  proof -
    have "b \<noteq> ''--''" using that by (auto simp: HasPrefix_def)
    then show ?thesis using that by (simp add: positionalArgs_scanArgs)
  qed
  have ex: "InferGitTarget [''fetch'', ''--prune'', ''mirror''] =
         (GitTarget0\<lparr>Kind := TargetRemote, Command := ''fetch'', RemoteName := ''mirror''\<rparr>, None)"
    by (simp add: InferGitTarget_def positionalArgs_scanArgs HasPrefix_def takesValue_def
        scp_defs)
  show ?thesis
    using flag pos ex by (simp add: positionalArgs_scanArgs)
qed

theorem positionalArgs_scan_witness:
  "HasPrefix ''-c'' ''-'' \<and> ''-c'' \<noteq> ''--''
   \<and> positionalArgs [''-c'', ''--'', ''a:b''] = positionalArgs [''a:b'']
   \<and> ''a:b'' \<noteq> [] \<and> \<not> HasPrefix ''a:b'' ''-''
   \<and> positionalArgs [''a:b''] = [''a:b'']"
  using positionalArgs_scan [of "[''--'', ''a:b'']" "''-c''" "''x''"]
    positionalArgs_scan [of "[]" "''-x''" "''a:b''"]
  by (simp add: HasPrefix_def)

end
